theory Spec2Isabelle
  imports Complex_Main
begin

section \<open>Python and array primitives used by the script\<close>

text \<open>
  The script \<^verbatim>\<open>SVR_model2.2.py\<close> runs top to bottom once. Exceptions are values of
  \<open>py_error\<close>; a computation that may raise returns \<open>py_error + 'a\<close>.
  Floating-point numbers are modelled by the reals, so rounding, overflow and underflow
  are outside the model.
\<close>

datatype py_error = IndexError | ValueError | FileNotFoundError

text \<open>\<^verbatim>\<open>xs[start:stop]\<close> for non-negative bounds: positions \<open>start \<le> i < stop\<close>, clipped to
  the sequence, never raising.\<close>

definition slice :: "'a list \<Rightarrow> nat \<Rightarrow> nat \<Rightarrow> 'a list" where
  "slice xs start stop = take (stop - start) (drop start xs)"

text \<open>\<^verbatim>\<open>xs[start:]\<close>.\<close>

definition slice_from :: "'a list \<Rightarrow> nat \<Rightarrow> 'a list" where
  "slice_from xs start = drop start xs"

text \<open>\<^verbatim>\<open>series.iloc[i]\<close> for a non-negative position: out of range raises IndexError.\<close>

definition iloc :: "'a list \<Rightarrow> nat \<Rightarrow> py_error + 'a" where
  "iloc xs i = (if i < length xs then Inr (xs ! i) else Inl IndexError)"

text \<open>\<^verbatim>\<open>data.tail(n)\<close>: the last \<open>n\<close> rows, all of them when there are fewer.\<close>

definition tail :: "nat \<Rightarrow> 'a list \<Rightarrow> 'a list" where
  "tail n xs = drop (length xs - n) xs"

section \<open>Windowing: lagged features\<close>

definition n_lags :: nat where
  "n_lags = 24"

text \<open>
  The loop
  \<^verbatim>\<open>for i in range(n_lags, len(data)):
      X.append(data['irradiance'].iloc[i-n_lags:i].values)
      y.append(data['irradiance'].iloc[i])\<close>
  as a recursion over the values of \<open>range\<close>, threading the two lists.
\<close>

fun lag_loop :: "'a list \<Rightarrow> nat list \<Rightarrow> 'a list list \<Rightarrow> 'a list \<Rightarrow> py_error + ('a list list \<times> 'a list)" where
  "lag_loop col [] X y = Inr (X, y)"
| "lag_loop col (i # rest) X y =
     (case iloc col i of
        Inl e \<Rightarrow> Inl e
      | Inr v \<Rightarrow> lag_loop col rest (X @ [slice col (i - n_lags) i]) (y @ [v]))"

definition make_lags :: "'a list \<Rightarrow> py_error + ('a list list \<times> 'a list)" where
  "make_lags col = lag_loop col [n_lags ..< length col] [] []"

section \<open>Train/test split\<close>

text \<open>\<^verbatim>\<open>train_size = int(len(X) * 0.8)\<close>; \<open>int\<close> truncates towards zero, which is the floor
  on a non-negative product.\<close>

definition train_size :: "nat \<Rightarrow> nat" where
  "train_size M = nat \<lfloor>real M * 0.8\<rfloor>"

text \<open>\<^verbatim>\<open>X_train, X_test = X[0:train_size], X[train_size:]\<close>, the same for \<open>y\<close>.\<close>

definition split_train :: "'a list \<Rightarrow> 'a list" where
  "split_train S = slice S 0 (train_size (length S))"

definition split_test :: "'a list \<Rightarrow> 'a list" where
  "split_test S = slice_from S (train_size (length S))"

section \<open>The input table and its preprocessing\<close>

text \<open>
  One row of \<^verbatim>\<open>cleaned_dataset.csv\<close> after \<^verbatim>\<open>pd.to_datetime\<close>: the timestamp is taken
  as parsed (a date that does not parse is outside the model); a measurement is \<open>None\<close>
  where the cell is missing (NaN). \<open>has_town\<close> is \<^verbatim>\<open>'town' in df.columns\<close>.
\<close>

type_synonym timestamp = int

record row =
  date :: timestamp
  irradiance :: "real option"
  temperature :: "real option"
  humidity :: "real option"
  wind_speed :: "real option"
  town :: "string option"

record csv_file =
  rows :: "row list"
  has_town :: bool

text \<open>\<^verbatim>\<open>pd.read_csv('cleaned_dataset.csv')\<close>: the file system either holds the file or not.\<close>

definition read_csv :: "csv_file option \<Rightarrow> py_error + csv_file" where
  "read_csv file = (case file of None \<Rightarrow> Inl FileNotFoundError | Some f \<Rightarrow> Inr f)"

text \<open>\<^verbatim>\<open>df.set_index('date'); df.sort_index()\<close>, and \<^verbatim>\<open>df.index\<close>. Rows of equal date are
  kept in their order here; pandas' default sort may order them otherwise. The sorted
  dates, the lengths and the counts of missing values are the same for every order of
  such rows.\<close>

definition sort_index :: "row list \<Rightarrow> row list" where
  "sort_index df = sort_key date df"

definition df_index :: "row list \<Rightarrow> timestamp list" where
  "df_index df = map date df"

text \<open>\<^verbatim>\<open>data = df[['irradiance', 'temperature', 'humidity', 'wind_speed']]\<close>: four columns.\<close>

record frame =
  irradiance_col :: "real option list"
  temperature_col :: "real option list"
  humidity_col :: "real option list"
  wind_speed_col :: "real option list"

definition select_columns :: "row list \<Rightarrow> frame" where
  "select_columns df =
     \<lparr>irradiance_col = map irradiance df, temperature_col = map temperature df,
      humidity_col = map humidity df, wind_speed_col = map wind_speed df\<rparr>"

definition columns :: "frame \<Rightarrow> real option list list" where
  "columns fr = [irradiance_col fr, temperature_col fr, humidity_col fr, wind_speed_col fr]"

definition map_columns :: "(real option list \<Rightarrow> real option list) \<Rightarrow> frame \<Rightarrow> frame" where
  "map_columns f fr =
     \<lparr>irradiance_col = f (irradiance_col fr), temperature_col = f (temperature_col fr),
      humidity_col = f (humidity_col fr), wind_speed_col = f (wind_speed_col fr)\<rparr>"

text \<open>\<^verbatim>\<open>len(data)\<close>: the number of rows, the length of every column.\<close>

definition frame_len :: "frame \<Rightarrow> nat" where
  "frame_len fr = length (irradiance_col fr)"

text \<open>\<^verbatim>\<open>data.isnull().sum().sum()\<close>.\<close>

definition null_count :: "frame \<Rightarrow> nat" where
  "null_count fr = sum_list (map (\<lambda>c. length (filter (\<lambda>v. v = None) c)) (columns fr))"

text \<open>
  Modelled from the spec: \<^verbatim>\<open>ffill\<close> and \<^verbatim>\<open>bfill\<close> are pandas methods, not code of the
  script. Forward fill propagates the last valid value forward, backward fill propagates
  the next valid value backward; a cell with no valid value on that side stays missing.
\<close>

fun ffill_from :: "'a option \<Rightarrow> 'a option list \<Rightarrow> 'a option list" where
  "ffill_from carried [] = []"
| "ffill_from carried (None # xs) = carried # ffill_from carried xs"
| "ffill_from carried (Some v # xs) = Some v # ffill_from (Some v) xs"

definition ffill :: "'a option list \<Rightarrow> 'a option list" where
  "ffill col = ffill_from None col"

definition bfill :: "'a option list \<Rightarrow> 'a option list" where
  "bfill col = rev (ffill (rev col))"

text \<open>\<^verbatim>\<open>if data.isnull().sum().sum() > 0: data = data.ffill().bfill()\<close>.\<close>

definition fill_missing :: "frame \<Rightarrow> frame" where
  "fill_missing fr = (if null_count fr > 0 then map_columns bfill (map_columns ffill fr) else fr)"

section \<open>Min-max scaling\<close>

text \<open>
  Modelled from the spec: \<^verbatim>\<open>MinMaxScaler\<close> is scikit-learn's, not code of the script.
  With the default feature range \<open>(0, 1)\<close> it keeps, per feature (column), the minimum
  and maximum of the data it was fitted on, \<open>scale_ = 1 / (max - min)\<close> and
  \<open>min_ = 0 - min * scale_\<close>; \<open>transform\<close> is \<open>x * scale_ + min_\<close>, that is
  \<open>(x - min) / (max - min)\<close>, and \<open>inverse_transform\<close> is \<open>(x - min_) / scale_\<close>. A
  feature of range zero is scaled by 1. The library validates its input: fitting or
  transforming an array without samples raises ValueError, as does transforming a row
  whose width is not the fitted one.
\<close>

definition amin :: "real list \<Rightarrow> real" where
  "amin xs = fold min (tl xs) (hd xs)"

definition amax :: "real list \<Rightarrow> real" where
  "amax xs = fold max (tl xs) (hd xs)"

record scaler =
  data_min :: "real list"
  data_max :: "real list"
  scale_attr :: "real list"
  min_attr :: "real list"

definition column :: "real list list \<Rightarrow> nat \<Rightarrow> real list" where
  "column X j = map (\<lambda>r. r ! j) X"

definition handle_zeros_in_scale :: "real \<Rightarrow> real" where
  "handle_zeros_in_scale r = (if r = 0 then 1 else r)"

definition fit :: "real list list \<Rightarrow> py_error + scaler" where
  "fit X =
     (if X = [] then Inl ValueError
      else
        let features = [0 ..< length (hd X)];
            lo = map (\<lambda>j. amin (column X j)) features;
            hi = map (\<lambda>j. amax (column X j)) features;
            sc = map (\<lambda>(l, h). 1 / handle_zeros_in_scale (h - l)) (zip lo hi)
        in Inr \<lparr>data_min = lo, data_max = hi, scale_attr = sc,
                 min_attr = map (\<lambda>(l, s). 0 - l * s) (zip lo sc)\<rparr>)"

definition check_rows :: "scaler \<Rightarrow> real list list \<Rightarrow> bool" where
  "check_rows s X = (X \<noteq> [] \<and> list_all (\<lambda>r. length r = length (scale_attr s)) X)"

definition transform :: "scaler \<Rightarrow> real list list \<Rightarrow> py_error + real list list" where
  "transform s X =
     (if check_rows s X
      then Inr (map (\<lambda>r. map (\<lambda>(x, sc, m). x * sc + m) (zip r (zip (scale_attr s) (min_attr s)))) X)
      else Inl ValueError)"

text \<open>\<open>inverse_transform\<close> does not compare the width of a row with the fitted one: a
  scaler of one feature is applied to every entry of a row (broadcasting); other
  widths that differ cannot be combined and raise ValueError.\<close>

definition inverse_transform :: "scaler \<Rightarrow> real list list \<Rightarrow> py_error + real list list" where
  "inverse_transform s X =
     (if check_rows s X
      then Inr (map (\<lambda>r. map (\<lambda>(x, sc, m). (x - m) / sc) (zip r (zip (scale_attr s) (min_attr s)))) X)
      else if X \<noteq> [] \<and> length (scale_attr s) = 1 \<and> list_all (\<lambda>r. r \<noteq> []) X
      then Inr (map (map (\<lambda>x. (x - hd (min_attr s)) / hd (scale_attr s))) X)
      else Inl ValueError)"

definition fit_transform :: "real list list \<Rightarrow> py_error + (scaler \<times> real list list)" where
  "fit_transform X =
     (case fit X of
        Inl e \<Rightarrow> Inl e
      | Inr s \<Rightarrow> (case transform s X of Inl e \<Rightarrow> Inl e | Inr Z \<Rightarrow> Inr (s, Z)))"

text \<open>\<^verbatim>\<open>v.reshape(-1, 1)\<close> and \<^verbatim>\<open>A.flatten()\<close>.\<close>

definition reshape_column :: "real list \<Rightarrow> real list list" where
  "reshape_column v = map (\<lambda>x. [x]) v"

definition flatten :: "real list list \<Rightarrow> real list" where
  "flatten A = concat A"

text \<open>
  Section 4 of the script: both scalers are fitted on the training partition and then
  applied to the test partition. The object whose method raised is recorded with the
  exception.
\<close>

datatype site = Windowing | Scaler_X | Scaler_y | SVR_model | Metrics | Town_analysis

record scaled =
  scaler_X :: scaler
  scaler_y :: scaler
  X_train_scaled :: "real list list"
  X_test_scaled :: "real list list"
  y_train_scaled :: "real list"
  y_test_scaled :: "real list"

definition scale_stage ::
  "real list list \<Rightarrow> real list list \<Rightarrow> real list \<Rightarrow> real list \<Rightarrow> (site \<times> py_error) + scaled" where
  "scale_stage X_train X_test y_train y_test =
     (case fit_transform X_train of
        Inl e \<Rightarrow> Inl (Scaler_X, e)
      | Inr (sX, Xtr) \<Rightarrow>
     (case transform sX X_test of
        Inl e \<Rightarrow> Inl (Scaler_X, e)
      | Inr Xte \<Rightarrow>
     (case fit_transform (reshape_column y_train) of
        Inl e \<Rightarrow> Inl (Scaler_y, e)
      | Inr (sy, ytr) \<Rightarrow>
     (case transform sy (reshape_column y_test) of
        Inl e \<Rightarrow> Inl (Scaler_y, e)
      | Inr yte \<Rightarrow>
          Inr \<lparr>scaler_X = sX, scaler_y = sy, X_train_scaled = Xtr, X_test_scaled = Xte,
               y_train_scaled = flatten ytr, y_test_scaled = flatten yte\<rparr>))))"

section \<open>Error metrics\<close>

text \<open>
  The numbers of the script are IEEE doubles: every elementary operation returns its
  exact result rounded. The metrics take the rounding as a parameter \<open>rnd\<close>: \<open>exact\<close>
  is arithmetic without rounding, \<open>binary64\<close> rounds to the nearest double, ties to the
  even significand (53 bits; overflow and the subnormal range are not modelled).
\<close>

definition exact :: "real \<Rightarrow> real" where
  "exact x = x"

definition round_half_even :: "real \<Rightarrow> int" where
  "round_half_even m =
     (let f = \<lfloor>m\<rfloor>; d = m - of_int f
      in if d < 1 / 2 then f else if 1 / 2 < d then f + 1 else if even f then f else f + 1)"

definition binary64 :: "real \<Rightarrow> real" where
  "binary64 x =
     (if x = 0 then 0
      else let ulp = 2 powr (of_int \<lfloor>log 2 \<bar>x\<bar>\<rfloor> - 52)
           in of_int (round_half_even (x / ulp)) * ulp)"

text \<open>
  Modelled from the spec: \<^verbatim>\<open>mean_squared_error\<close> and \<^verbatim>\<open>mean_absolute_error\<close> are
  scikit-learn's: the mean of the squared, respectively absolute, residuals; they raise
  ValueError on vectors of different lengths and on empty ones. The sum of a mean is
  accumulated from left to right, which is numpy's order for a short vector (numpy sums a
  long vector in blocks; without rounding the order does not matter).
\<close>

definition fl_sum :: "(real \<Rightarrow> real) \<Rightarrow> real list \<Rightarrow> real" where
  "fl_sum rnd xs = foldl (\<lambda>s x. rnd (s + x)) 0 xs"

definition mean :: "(real \<Rightarrow> real) \<Rightarrow> real list \<Rightarrow> real" where
  "mean rnd xs = rnd (fl_sum rnd xs / real (length xs))"

definition residuals :: "(real \<Rightarrow> real) \<Rightarrow> real list \<Rightarrow> real list \<Rightarrow> real list" where
  "residuals rnd actual predicted = map (\<lambda>(a, p). rnd (a - p)) (zip actual predicted)"

definition check_targets :: "real list \<Rightarrow> real list \<Rightarrow> bool" where
  "check_targets y_true y_pred = (length y_true = length y_pred \<and> y_true \<noteq> [])"

definition mean_squared_error :: "(real \<Rightarrow> real) \<Rightarrow> real list \<Rightarrow> real list \<Rightarrow> py_error + real" where
  "mean_squared_error rnd y_true y_pred =
     (if check_targets y_true y_pred
      then Inr (mean rnd (map (\<lambda>e. rnd (e * e)) (residuals rnd y_true y_pred)))
      else Inl ValueError)"

definition mean_absolute_error :: "(real \<Rightarrow> real) \<Rightarrow> real list \<Rightarrow> real list \<Rightarrow> py_error + real" where
  "mean_absolute_error rnd y_true y_pred =
     (if check_targets y_true y_pred
      then Inr (mean rnd (map abs (residuals rnd y_true y_pred)))
      else Inl ValueError)"

text \<open>\<^verbatim>\<open>rmse = np.sqrt(mean_squared_error(y_test, predictions))\<close>.\<close>

definition rmse_of :: "(real \<Rightarrow> real) \<Rightarrow> real list \<Rightarrow> real list \<Rightarrow> py_error + real" where
  "rmse_of rnd y_test predictions =
     (case mean_squared_error rnd y_test predictions of
        Inl e \<Rightarrow> Inl e
      | Inr m \<Rightarrow> Inr (rnd (sqrt m)))"

text \<open>
  Element-wise arithmetic on arrays and on pandas Series does not raise on a zero
  divisor: a non-zero number over zero is an infinity of its sign and zero over zero is
  \<open>nan\<close>. A value of the percentage error is therefore a number, an infinity or \<open>nan\<close>
  (the finite values are kept exact).
\<close>

datatype npfloat = Finite real | PInf | NInf | NaN

definition is_finite :: "npfloat \<Rightarrow> bool" where
  "is_finite v = (case v of Finite x \<Rightarrow> True | PInf \<Rightarrow> False | NInf \<Rightarrow> False | NaN \<Rightarrow> False)"

definition np_divide :: "real \<Rightarrow> real \<Rightarrow> npfloat" where
  "np_divide x d =
     (if d \<noteq> 0 then Finite (x / d) else if 0 < x then PInf else if x < 0 then NInf else NaN)"

fun np_abs :: "npfloat \<Rightarrow> npfloat" where
  "np_abs (Finite x) = Finite \<bar>x\<bar>"
| "np_abs PInf = PInf"
| "np_abs NInf = PInf"
| "np_abs NaN = NaN"

fun np_add :: "npfloat \<Rightarrow> npfloat \<Rightarrow> npfloat" where
  "np_add NaN v = NaN"
| "np_add u NaN = NaN"
| "np_add PInf NInf = NaN"
| "np_add NInf PInf = NaN"
| "np_add PInf v = PInf"
| "np_add u PInf = PInf"
| "np_add NInf v = NInf"
| "np_add u NInf = NInf"
| "np_add (Finite a) (Finite b) = Finite (a + b)"

text \<open>The product with a finite number \<open>c\<close>.\<close>

fun np_times :: "real \<Rightarrow> npfloat \<Rightarrow> npfloat" where
  "np_times c (Finite x) = Finite (x * c)"
| "np_times c PInf = (if 0 < c then PInf else if c < 0 then NInf else NaN)"
| "np_times c NInf = (if 0 < c then NInf else if c < 0 then PInf else NaN)"
| "np_times c NaN = NaN"

text \<open>\<^verbatim>\<open>np.mean\<close> of an array: the sum over the count; \<open>nan\<close> for an empty array.\<close>

definition np_mean :: "npfloat list \<Rightarrow> npfloat" where
  "np_mean vs =
     (if vs = [] then NaN else np_times (1 / real (length vs)) (foldl np_add (Finite 0) vs))"

text \<open>\<^verbatim>\<open>np.mean\<close> of a pandas Series is \<^verbatim>\<open>Series.mean()\<close>, which skips missing values
  (\<open>nan\<close>) and keeps the infinities.\<close>

definition series_mean :: "npfloat list \<Rightarrow> npfloat" where
  "series_mean vs = np_mean (filter (\<lambda>v. v \<noteq> NaN) vs)"

text \<open>\<^verbatim>\<open>mape = np.mean(np.abs((y_test - predictions) / (y_test + 1e-8))) * 100\<close>, on
  arrays.\<close>

definition mape_ratios :: "real list \<Rightarrow> real list \<Rightarrow> npfloat list" where
  "mape_ratios y_test predictions =
     map (\<lambda>(a, p). np_divide (a - p) (a + 1 / 10 ^ 8)) (zip y_test predictions)"

definition mape_of :: "real list \<Rightarrow> real list \<Rightarrow> npfloat" where
  "mape_of y_test predictions = np_times 100 (np_mean (map np_abs (mape_ratios y_test predictions)))"

section \<open>The two computations of the test index\<close>

definition N_LAGS :: nat where
  "N_LAGS = 24"

text \<open>
  \<^verbatim>\<open>test_index_start = n_lags + (len(df) - len(data)) + train_size
  test_index = df.index[test_index_start : test_index_start + len(y_test)]\<close>
\<close>

definition test_index_first :: "'t list \<Rightarrow> nat \<Rightarrow> nat \<Rightarrow> 'a list \<Rightarrow> 't list" where
  "test_index_first index len_data train_sz y_test =
     (let test_index_start = n_lags + (length index - len_data) + train_sz
      in slice index test_index_start (test_index_start + length y_test))"

text \<open>\<^verbatim>\<open>test_index = df.index[N_LAGS + len(X_train):N_LAGS + len(X_train) + len(y_test)]\<close>\<close>

definition test_index_second :: "'t list \<Rightarrow> 'b list \<Rightarrow> 'a list \<Rightarrow> 't list" where
  "test_index_second index X_train y_test =
     slice index (N_LAGS + length X_train) (N_LAGS + length X_train + length y_test)"

section \<open>Per-town metrics\<close>

record town_metrics =
  RMSE :: real
  MAE :: real
  MAPE :: npfloat

text \<open>
  The function applied to each group: a group is its rows \<open>(actual, predicted)\<close>, two
  Series. Its quotients \<^verbatim>\<open>(x['actual'] - x['predicted']) / x['actual']\<close> divide by the raw
  actual value; the mean is that of a Series. The two scikit-learn metrics are taken
  without rounding.
\<close>

definition town_ratios :: "(real \<times> real) list \<Rightarrow> npfloat list" where
  "town_ratios x = map (\<lambda>(a, p). np_divide (a - p) a) x"

definition group_metrics :: "(real \<times> real) list \<Rightarrow> py_error + town_metrics" where
  "group_metrics x =
     (case rmse_of exact (map fst x) (map snd x) of
        Inl e \<Rightarrow> Inl e
      | Inr r \<Rightarrow>
     (case mean_absolute_error exact (map fst x) (map snd x) of
        Inl e \<Rightarrow> Inl e
      | Inr m \<Rightarrow>
          Inr \<lparr>RMSE = r, MAE = m,
               MAPE = np_times 100 (series_mean (map np_abs (town_ratios x)))\<rparr>))"

text \<open>
  \<^verbatim>\<open>results.join(df[['town']], how='left')\<close> on the date index: a result row is paired
  with the town of every row of \<open>df\<close> that has its date, and with a missing town when
  there is none.
\<close>

definition join_town ::
  "(timestamp \<times> real \<times> real) list \<Rightarrow> row list \<Rightarrow> (string option \<times> real \<times> real) list" where
  "join_town results df =
     concat (map (\<lambda>(d, a, p).
        (case filter (\<lambda>r. date r = d) df of
           [] \<Rightarrow> [(None, a, p)]
         | ms \<Rightarrow> map (\<lambda>r. (town r, a, p)) ms)) results)"

text \<open>\<^verbatim>\<open>groupby('town')\<close>: the keys are the towns that occur (a missing town is no key);
  the table is kept as an association list and read by key.\<close>

definition group_keys :: "(string option \<times> real \<times> real) list \<Rightarrow> string list" where
  "group_keys joined = remdups (concat (map (\<lambda>(t, ap). case t of None \<Rightarrow> [] | Some k \<Rightarrow> [k]) joined))"

definition group_rows :: "(string option \<times> real \<times> real) list \<Rightarrow> string \<Rightarrow> (real \<times> real) list" where
  "group_rows joined k = map snd (filter (\<lambda>(t, ap). t = Some k) joined)"

fun apply_groups ::
  "(string option \<times> real \<times> real) list \<Rightarrow> string list \<Rightarrow> py_error + (string \<times> town_metrics) list" where
  "apply_groups joined [] = Inr []"
| "apply_groups joined (k # ks) =
     (case group_metrics (group_rows joined k) of
        Inl e \<Rightarrow> Inl e
      | Inr m \<Rightarrow>
     (case apply_groups joined ks of
        Inl e \<Rightarrow> Inl e
      | Inr ms \<Rightarrow> Inr ((k, m) # ms)))"

text \<open>
  \<^verbatim>\<open>analyze_town_performance(y_test, predictions, test_index, df)\<close>: \<open>None\<close> when there is
  no town column; building the results table from columns of different lengths raises
  ValueError. The plot is not modelled.
\<close>

definition analyze_town_performance ::
  "real list \<Rightarrow> real list \<Rightarrow> timestamp list \<Rightarrow> csv_file \<Rightarrow> py_error + (string \<times> town_metrics) list option" where
  "analyze_town_performance y_test predictions test_index df =
     (if \<not> has_town df then Inr None
      else if \<not> (length y_test = length predictions \<and> length predictions = length test_index)
      then Inl ValueError
      else
        let results = zip test_index (zip y_test predictions);
            joined = join_town results (rows df)
        in (case apply_groups joined (group_keys joined) of
              Inl e \<Rightarrow> Inl e
            | Inr metrics_by_town \<Rightarrow> Inr (Some metrics_by_town)))"

section \<open>The script\<close>

text \<open>
  Modelled from the spec: the support vector regression is scikit-learn's. A fitted
  model is taken as a function from a scaled feature row to a scaled label, so that
  \<open>predict\<close> returns one estimate per row; \<open>svr_fit\<close> is a parameter of the run.
\<close>

type_synonym svr = "real list list \<Rightarrow> real list \<Rightarrow> real list \<Rightarrow> real"

text \<open>The lines the script prints, one constructor per \<^verbatim>\<open>print\<close> statement; the
  header and the three lines of the metrics are taken together.\<close>

datatype line =
    Loaded
  | NotFound
  | MissingWarning
  | OriginalSize nat
  | ReducedSize nat
  | ShapeX nat
  | ShapeY nat
  | TrainPoints nat
  | TestPoints nat
  | Fitting
  | Fitted
  | MetricLines real real npfloat
  | TownHeader
  | NoTownInfo

record results =
  r_predictions :: "real list"
  r_rmse :: real
  r_mae :: real
  r_mape :: npfloat
  r_test_index :: "timestamp list"
  r_test_index2 :: "timestamp list"
  r_town_metrics :: "(string \<times> town_metrics) list option"

text \<open>
  How the process ends: \<^verbatim>\<open>exit()\<close> with the status it was given (the script gives none),
  an exception nobody catches, or the end of the script.
\<close>

datatype outcome = Exited "int option" | Raised site py_error | Completed results

text \<open>The exit status of the process: \<^verbatim>\<open>exit()\<close> without a status, and \<open>None\<close>, mean
  zero; an uncaught exception ends the interpreter with status 1.\<close>

fun exit_status :: "outcome \<Rightarrow> int" where
  "exit_status (Exited None) = 0"
| "exit_status (Exited (Some c)) = c"
| "exit_status (Raised s e) = 1"
| "exit_status (Completed r) = 0"

text \<open>Lines 25 to 41: the sorted table, and the filled and truncated frame.\<close>

definition prepared :: "csv_file \<Rightarrow> frame" where
  "prepared f = map_columns (tail 10000) (fill_missing (select_columns (sort_index (rows f))))"

text \<open>
  A column that is missing throughout is still NaN after the fill. NaN passes through
  the scalers; \<^verbatim>\<open>SVR.fit\<close> rejects it with ValueError. The numeric stages are over the
  reals, so the run branches on it; \<open>numeric\<close> reads the values (the scalers' checks
  look at shapes only).
\<close>

definition numeric :: "real option \<Rightarrow> real" where
  "numeric v = (case v of None \<Rightarrow> 0 | Some x \<Rightarrow> x)"

text \<open>Sections 5 to 7 and the town analysis, from the scaled data on; the numbers of the
  run are taken without rounding.\<close>

definition evaluate ::
  "svr \<Rightarrow> csv_file \<Rightarrow> nat \<Rightarrow> nat \<Rightarrow> line list \<Rightarrow> real list list \<Rightarrow> real list \<Rightarrow> scaled
     \<Rightarrow> line list \<times> outcome" where
  "evaluate svr_fit f len_data train_sz out0 X_train y_test sc =
     (let fitted = svr_fit (X_train_scaled sc) (y_train_scaled sc);
          out1 = out0 @ [Fitting, Fitted];
          predictions_scaled = map fitted (X_test_scaled sc)
      in (case inverse_transform (scaler_y sc) (reshape_column predictions_scaled) of
            Inl e \<Rightarrow> (out1, Raised Scaler_y e)
          | Inr restored \<Rightarrow>
             (let preds = flatten restored;
                  idx = df_index (sort_index (rows f));
                  test_index = test_index_first idx len_data train_sz y_test
              in (case rmse_of exact y_test preds of
                    Inl e \<Rightarrow> (out1, Raised Metrics e)
                  | Inr rmse_v \<Rightarrow>
                     (case mean_absolute_error exact y_test preds of
                        Inl e \<Rightarrow> (out1, Raised Metrics e)
                      | Inr mae_v \<Rightarrow>
                         (let mape_v = mape_of y_test preds;
                              test_index2 = test_index_second idx X_train y_test;
                              out2 = out1 @ [MetricLines rmse_v mae_v mape_v, TownHeader]
                                     @ (if has_town f then [] else [NoTownInfo])
                          in (case analyze_town_performance y_test preds test_index2
                                     (f\<lparr>rows := sort_index (rows f)\<rparr>) of
                                Inl e \<Rightarrow> (out2, Raised Town_analysis e)
                              | Inr t \<Rightarrow>
                                  (out2, Completed
                                     \<lparr>r_predictions = preds, r_rmse = rmse_v, r_mae = mae_v,
                                      r_mape = mape_v, r_test_index = test_index,
                                      r_test_index2 = test_index2,
                                      r_town_metrics = t\<rparr>))))))))"

text \<open>The whole script: the printed lines and how the process ends.\<close>

definition run :: "svr \<Rightarrow> csv_file option \<Rightarrow> line list \<times> outcome" where
  "run svr_fit file =
     (case read_csv file of
        Inl e \<Rightarrow> ([NotFound], Exited None)
      | Inr f \<Rightarrow>
         (let data = prepared f;
              out0 = [Loaded]
                     @ (if null_count (select_columns (sort_index (rows f))) > 0
                        then [MissingWarning] else [])
                     @ [OriginalSize (length (rows f)), ReducedSize (frame_len data)]
          in (case make_lags (irradiance_col data) of
                Inl e \<Rightarrow> (out0, Raised Windowing e)
              | Inr (X, y) \<Rightarrow>
                 (let train_sz = train_size (length X);
                      X_train = split_train X; X_test = split_test X;
                      y_train = split_train y; y_test = split_test y;
                      out1 = out0 @ [ShapeX (length X), ShapeY (length y),
                                     TrainPoints (length X_train), TestPoints (length X_test)]
                  in (case scale_stage (map (map numeric) X_train) (map (map numeric) X_test)
                             (map numeric y_train) (map numeric y_test) of
                        Inl (s, e) \<Rightarrow> (out1, Raised s e)
                      | Inr sc \<Rightarrow>
                         (if None \<in> set (irradiance_col data)
                          then (out1 @ [Fitting], Raised SVR_model ValueError)
                          else evaluate svr_fit f (frame_len data) train_sz out1
                                 (map (map numeric) X_train) (map numeric y_test) sc))))))"

section \<open>Example inputs\<close>

text \<open>A table whose irradiance column has an interior gap of five rows, whose
  temperature column starts with a gap and whose humidity column ends with one.\<close>

definition gap_frame :: frame where
  "gap_frame = \<lparr>irradiance_col = [Some 5, None, None, None, None, None, Some 7],
                temperature_col = [None, Some 1, Some 1, Some 1, Some 1, Some 1, Some 1],
                humidity_col = [Some 2, Some 2, Some 2, Some 2, Some 2, Some 2, None],
                wind_speed_col = [Some 3, Some 3, Some 3, Some 3, Some 3, Some 3, Some 3]\<rparr>"

text \<open>Files without missing values: a row stamped \<open>d\<close>; 25 rows and 3 rows with
  increasing dates; 10001 rows with increasing dates; 10001 rows with one and the same
  date.\<close>

definition measured :: "timestamp \<Rightarrow> row" where
  "measured d = \<lparr>date = d, irradiance = Some 1, temperature = Some 20, humidity = Some 50,
                  wind_speed = Some 3, town = None\<rparr>"

definition short_file :: csv_file where
  "short_file = \<lparr>rows = map (\<lambda>i. measured (int i)) [0 ..< 25], has_town = False\<rparr>"

definition tiny_file :: csv_file where
  "tiny_file = \<lparr>rows = [measured 0, measured 1, measured 2], has_town = False\<rparr>"

definition distinct_file :: csv_file where
  "distinct_file = \<lparr>rows = map (\<lambda>i. measured (int i)) [0 ..< 10001], has_town = False\<rparr>"

definition constant_file :: csv_file where
  "constant_file = \<lparr>rows = replicate 10001 (measured 0), has_town = False\<rparr>"

text \<open>A file with a town column; the row of date 0 has irradiance zero.\<close>

definition town_file :: csv_file where
  "town_file =
     \<lparr>rows = [\<lparr>date = 0, irradiance = Some 0, temperature = Some 20, humidity = Some 50,
               wind_speed = Some 3, town = Some ''A''\<rparr>,
              \<lparr>date = 1, irradiance = Some 2, temperature = Some 20, humidity = Some 50,
               wind_speed = Some 3, town = Some ''B''\<rparr>],
      has_town = True\<rparr>"

text \<open>The double nearest to 0.1, and the double that is its rounded square.\<close>

definition tenth :: real where
  "tenth = 3602879701896397 / 2 ^ 55"

definition hundredth :: real where
  "hundredth = 5764607523034236 / 2 ^ 59"

text \<open>An estimator that predicts zero everywhere.\<close>

definition zero_svr :: svr where
  "zero_svr X y r = 0"

section \<open>Properties of windowing\<close>

lemma lag_loop_upt:
  "hi \<le> length col \<Longrightarrow>
   lag_loop col [lo ..< hi] X y =
     Inr (X @ map (\<lambda>i. slice col (i - n_lags) i) [lo ..< hi], y @ map (\<lambda>i. col ! i) [lo ..< hi])"
proof (induction "hi - lo" arbitrary: lo X y)
  case 0
  then show ?case by simp
next
  case (Suc d)
  then have lt: "lo < hi" by simp
  have d: "d = hi - Suc lo" using Suc.hyps(2) by simp
  have "lag_loop col [lo ..< hi] X y
        = lag_loop col [Suc lo ..< hi] (X @ [slice col (lo - n_lags) lo]) (y @ [col ! lo])"
    using lt Suc.prems by (simp add: upt_conv_Cons iloc_def)
  also have "\<dots> = Inr ((X @ [slice col (lo - n_lags) lo]) @ map (\<lambda>i. slice col (i - n_lags) i) [Suc lo ..< hi],
                        (y @ [col ! lo]) @ map (\<lambda>i. col ! i) [Suc lo ..< hi])"
    using Suc.hyps(1) [OF d Suc.prems] .
  finally show ?case using lt by (simp add: upt_conv_Cons)
qed

lemma make_lags_eq:
  "make_lags col =
     Inr (map (\<lambda>i. slice col (i - n_lags) i) [n_lags ..< length col],
          map (\<lambda>i. col ! i) [n_lags ..< length col])"
  unfolding make_lags_def using lag_loop_upt [of "length col" col n_lags "[]" "[]"] by simp

lemma slice_length: "length (slice xs a b) = min (b - a) (length xs - a)"
  by (simp add: slice_def)

lemma slice_nth: "a + j < b \<Longrightarrow> a + j < length xs \<Longrightarrow> slice xs a b ! j = xs ! (a + j)"
  by (simp add: slice_def)

text \<open>
  C3. For a series of length \<open>N\<close> and lag count 24, the windowing loop returns without
  raising and produces exactly \<open>max (N - 24) 0\<close> samples; sample \<open>k\<close> belongs to loop index
  \<open>i = k + 24\<close>: its feature vector has length 24 and holds the values at positions
  \<open>i - 24 \<le> p < i\<close> in order, and its label is the value at position \<open>i\<close>. With \<open>N \<le> 24\<close>
  the result is the pair of empty lists.
\<close>

theorem make_lags_windows:
  "n_lags = 24 \<and>
   (\<exists>X y. make_lags col = Inr (X, y) \<and>
      int (length X) = max (int (length col) - 24) 0 \<and>
      length y = length X \<and>
      (\<forall>k < length X.
          length (X ! k) = 24 \<and>
          (\<forall>j < 24. X ! k ! j = col ! ((k + 24) - 24 + j)) \<and>
          y ! k = col ! (k + 24)) \<and>
      (length col \<le> 24 \<longrightarrow> X = [] \<and> y = []))"
  by (auto simp: make_lags_eq n_lags_def slice_length slice_nth add.commute)

theorem make_lags_windows_witness:
  "\<exists>X y. make_lags [0 ..< 26 :: nat] = Inr (X, y) \<and> length X = 2 \<and> length y = 2
     \<and> X ! 1 ! 23 = 24 \<and> y ! 1 = 25"
  using make_lags_windows [of "[0 ..< 26 :: nat]"] by (auto simp: nth_append)

section \<open>Properties of the split\<close>

lemma train_size_div: "train_size M = (4 * M) div 5"
proof -
  have "real M * 0.8 = real (4 * M) / real 5" by simp
  then have "\<lfloor>real M * 0.8\<rfloor> = \<lfloor>real (4 * M) / real 5\<rfloor>" by (simp add: mult.commute)
  also have "\<dots> = int ((4 * M) div 5)" by (rule floor_divide_of_nat_eq)
  finally show ?thesis by (simp add: train_size_def)
qed

lemma train_size_le: "train_size M \<le> M"
  by (simp add: train_size_div)

text \<open>
  C4. For a sample sequence \<open>S\<close> of length \<open>M\<close> the boundary is \<open>floor (0.8 * M)\<close>; the
  training set is the first \<open>boundary\<close> samples and the test set the remaining ones, both
  in the original order; train followed by test is \<open>S\<close> again, so every position of \<open>S\<close>
  is in exactly one of the two.
\<close>

theorem split_partition:
  "int (train_size (length S)) = \<lfloor>0.8 * real (length S)\<rfloor> \<and>
   split_train S = take (train_size (length S)) S \<and>
   split_test S = drop (train_size (length S)) S \<and>
   split_train S @ split_test S = S \<and>
   length (split_train S) = train_size (length S) \<and>
   length (split_train S) + length (split_test S) = length S \<and>
   (\<forall>i < length S.
      if i < train_size (length S) then split_train S ! i = S ! i
      else split_test S ! (i - train_size (length S)) = S ! i)"
proof -
  have "int (train_size (length S)) = \<lfloor>0.8 * real (length S)\<rfloor>"
    by (simp add: train_size_def mult.commute)
  moreover have "train_size (length S) \<le> length S" by (rule train_size_le)
  ultimately show ?thesis
    by (simp add: split_train_def split_test_def slice_def slice_from_def min_def)
qed

theorem split_partition_witness:
  "train_size (length [10, 20, 30, 40, 50 :: nat]) = 4 \<and>
   split_train [10, 20, 30, 40, 50 :: nat] = [10, 20, 30, 40] \<and>
   split_test [10, 20, 30, 40, 50 :: nat] = [50]"
  using split_partition [of "[10, 20, 30, 40, 50 :: nat]"] by (simp add: train_size_div)

section \<open>Properties of the missing-value fill\<close>

lemma ffill_from_length [simp]: "length (ffill_from c xs) = length xs"
  by (induction c xs rule: ffill_from.induct) auto

lemma ffill_from_None_iff:
  "None \<in> set (ffill_from c xs) \<longleftrightarrow> c = None \<and> (\<exists>ys. xs = None # ys)"
  by (induction c xs rule: ffill_from.induct) auto

lemma ffill_from_Nil_iff [simp]: "ffill_from c xs = [] \<longleftrightarrow> xs = []"
  by (induction c xs rule: ffill_from.induct) auto

lemma ffill_from_last:
  "xs \<noteq> [] \<Longrightarrow> (last (ffill_from c xs) = None) = (c = None \<and> set xs \<subseteq> {None})"
  by (induction c xs rule: ffill_from.induct) (auto split: if_splits)

lemma ffill_from_keeps:
  "i < length xs \<Longrightarrow> xs ! i = Some v \<Longrightarrow> ffill_from c xs ! i = Some v"
proof (induction c xs arbitrary: i rule: ffill_from.induct)
  case (1 c) then show ?case by simp
next
  case (2 c xs) then show ?case by (cases i) auto
next
  case (3 c w xs) then show ?case by (cases i) auto
qed

lemma ffill_from_carry:
  "i < length xs \<Longrightarrow> \<forall>k \<le> i. xs ! k = None \<Longrightarrow> ffill_from c xs ! i = c"
proof (induction c xs arbitrary: i rule: ffill_from.induct)
  case (1 c) then show ?case by simp
next
  case (2 c xs)
  show ?case
  proof (cases i)
    case 0 then show ?thesis by simp
  next
    case (Suc m)
    have "\<forall>k \<le> m. xs ! k = None" using 2(3) Suc by (metis Suc_le_mono nth_Cons_Suc)
    then show ?thesis using 2 Suc by simp
  qed
next
  case (3 c w xs) then show ?case by (metis le0 nth_Cons_0 option.distinct(1))
qed

lemma ffill_from_gap:
  "j < i \<Longrightarrow> i < length xs \<Longrightarrow> xs ! j = Some v \<Longrightarrow> \<forall>k. j < k \<and> k \<le> i \<longrightarrow> xs ! k = None
   \<Longrightarrow> ffill_from c xs ! i = Some v"
proof (induction c xs arbitrary: i j rule: ffill_from.induct)
  case (1 c) then show ?case by simp
next
  case (2 c xs)
  then obtain j' where j: "j = Suc j'" by (cases j) auto
  obtain i' where i: "i = Suc i'" using 2(2) by (cases i) auto
  have "\<forall>k. j' < k \<and> k \<le> i' \<longrightarrow> xs ! k = None"
    using 2(5) i j by (metis Suc_le_mono Suc_less_eq nth_Cons_Suc)
  then show ?case using 2 i j by simp
next
  case (3 c w xs)
  obtain i' where i: "i = Suc i'" using 3(2) by (cases i) auto
  show ?case
  proof (cases j)
    case 0
    have "\<forall>k \<le> i'. xs ! k = None" using 3(5) i 0 by (metis Suc_le_mono nth_Cons_Suc zero_less_Suc)
    then have "ffill_from (Some w) xs ! i' = Some w" using ffill_from_carry [of i' xs] 3(3) i by simp
    then show ?thesis using 3 i 0 by simp
  next
    case (Suc j')
    have "\<forall>k. j' < k \<and> k \<le> i' \<longrightarrow> xs ! k = None"
      using 3(5) i Suc by (metis Suc_le_mono Suc_less_eq nth_Cons_Suc)
    then show ?thesis using 3 i Suc by simp
  qed
qed

lemma bfill_length [simp]: "length (bfill xs) = length xs"
  by (simp add: bfill_def ffill_def)

lemma ffill_length [simp]: "length (ffill xs) = length xs"
  by (simp add: ffill_def)

lemma bfill_keeps: "i < length xs \<Longrightarrow> xs ! i = Some v \<Longrightarrow> bfill xs ! i = Some v"
  by (simp add: bfill_def ffill_def rev_nth ffill_from_keeps)

lemma bfill_ffill_no_None:
  assumes "Some v \<in> set col"
  shows "None \<notin> set (bfill (ffill col))"
proof
  assume "None \<in> set (bfill (ffill col))"
  then have "None \<in> set (ffill_from None (rev (ffill_from None col)))"
    by (simp add: bfill_def ffill_def)
  then obtain ys where ys: "rev (ffill_from None col) = None # ys"
    by (auto simp: ffill_from_None_iff)
  have ne: "col \<noteq> []" using assms by auto
  then have "ffill_from None col \<noteq> []" by (metis ffill_from_length length_0_conv)
  then have "last (ffill_from None col) = hd (rev (ffill_from None col))" by (simp add: hd_rev)
  then have "last (ffill_from None col) = None" using ys by simp
  then have "set col \<subseteq> {None}" using ffill_from_last [OF ne] by blast
  then show False using assms by auto
qed

lemma bfill_ffill_gap:
  "j < i \<Longrightarrow> i < length col \<Longrightarrow> col ! j = Some v \<Longrightarrow> \<forall>k. j < k \<and> k \<le> i \<longrightarrow> col ! k = None
   \<Longrightarrow> bfill (ffill col) ! i = Some v"
  by (simp add: bfill_keeps ffill_def ffill_from_gap)

lemma columns_fill:
  "columns (fill_missing fr) = (if null_count fr > 0 then map (\<lambda>c. bfill (ffill c)) (columns fr) else columns fr)"
  by (simp add: fill_missing_def columns_def map_columns_def)

lemma null_count_0: "null_count fr = 0 \<Longrightarrow> c \<in> set (columns fr) \<Longrightarrow> None \<notin> set c"
  by (auto simp: null_count_def filter_empty_conv)

text \<open>
  C7. When each of the four columns holds at least one valid value, the fill leaves no
  missing value in any of the four columns, and a missing cell that has a valid value
  somewhere before it (a cell of an interior gap) receives the last valid value that
  precedes it.
\<close>

theorem fill_missing_complete:
  assumes "\<forall>c \<in> set (columns fr). \<exists>v. Some v \<in> set c"
  shows "(\<forall>c \<in> set (columns (fill_missing fr)). None \<notin> set c) \<and>
         (\<forall>n < 4. \<forall>i j v. j < i \<and> i < length (columns fr ! n) \<and> columns fr ! n ! j = Some v \<and>
              (\<forall>k. j < k \<and> k \<le> i \<longrightarrow> columns fr ! n ! k = None)
            \<longrightarrow> columns (fill_missing fr) ! n ! i = Some v)"
proof (cases "null_count fr > 0")
  case True
  have len: "length (columns fr) = 4" by (simp add: columns_def)
  have a: "\<forall>c \<in> set (columns (fill_missing fr)). None \<notin> set c"
    using assms True by (auto simp: columns_fill dest: bfill_ffill_no_None)
  have b: "columns (fill_missing fr) ! n ! i = Some v"
    if "n < 4" "j < i" "i < length (columns fr ! n)" "columns fr ! n ! j = Some v"
       "\<forall>k. j < k \<and> k \<le> i \<longrightarrow> columns fr ! n ! k = None" for n i j v
    using that True len by (simp add: columns_fill bfill_ffill_gap)
  show ?thesis using a b by blast
next
  case False
  then have z: "null_count fr = 0" by simp
  have a: "\<forall>c \<in> set (columns (fill_missing fr)). None \<notin> set c"
    using z by (auto simp: columns_fill dest: null_count_0)
  have len: "length (columns fr) = 4" by (simp add: columns_def)
  have b: "columns (fill_missing fr) ! n ! i = Some v"
    if "n < 4" "j < i" "i < length (columns fr ! n)" "columns fr ! n ! j = Some v"
       "\<forall>k. j < k \<and> k \<le> i \<longrightarrow> columns fr ! n ! k = None" for n i j v
  proof -
    have "columns fr ! n \<in> set (columns fr)" using that(1) len by simp
    then have "None \<notin> set (columns fr ! n)" using z null_count_0 by blast
    moreover have "columns fr ! n ! i = None" using that by simp
    ultimately show ?thesis using that(3) by (metis nth_mem)
  qed
  show ?thesis using a b by blast
qed

theorem fill_missing_complete_witness:
  "columns (fill_missing gap_frame) =
     [[Some 5, Some 5, Some 5, Some 5, Some 5, Some 5, Some 7],
      [Some 1, Some 1, Some 1, Some 1, Some 1, Some 1, Some 1],
      [Some 2, Some 2, Some 2, Some 2, Some 2, Some 2, Some 2],
      [Some 3, Some 3, Some 3, Some 3, Some 3, Some 3, Some 3]] \<and>
   columns (fill_missing gap_frame) ! 0 ! 5 = Some 5"
  using fill_missing_complete [of gap_frame]
  by (simp add: gap_frame_def columns_def fill_missing_def null_count_def map_columns_def ffill_def bfill_def)

section \<open>Properties of the scalers\<close>

lemma amin_Min: "xs \<noteq> [] \<Longrightarrow> amin xs = Min (set xs)"
proof -
  assume "xs \<noteq> []"
  then obtain a ys where xs: "xs = a # ys" by (cases xs) auto
  show ?thesis unfolding xs amin_def using Min.set_eq_fold [of a ys] by simp
qed

lemma amax_Max: "xs \<noteq> [] \<Longrightarrow> amax xs = Max (set xs)"
proof -
  assume "xs \<noteq> []"
  then obtain a ys where xs: "xs = a # ys" by (cases xs) auto
  show ?thesis unfolding xs amax_def using Max.set_eq_fold [of a ys] by simp
qed

lemma column_reshape: "column (reshape_column v) 0 = v"
  by (simp add: column_def reshape_column_def comp_def)

lemma fit_label:
  assumes "y_train \<noteq> []"
  shows "fit (reshape_column y_train) =
     Inr \<lparr>data_min = [amin y_train], data_max = [amax y_train],
          scale_attr = [1 / handle_zeros_in_scale (amax y_train - amin y_train)],
          min_attr = [0 - amin y_train * (1 / handle_zeros_in_scale (amax y_train - amin y_train))]\<rparr>"
proof -
  obtain a ys where y: "y_train = a # ys" using assms by (cases y_train) auto
  have h: "hd (reshape_column y_train) = [a]" "reshape_column y_train \<noteq> []"
    by (simp_all add: y reshape_column_def)
  show ?thesis
    unfolding fit_def by (simp add: h column_reshape Let_def)
qed

lemma affine_inverse:
  fixes d :: real
  shows "d \<noteq> 0 \<Longrightarrow> ((x - lo) / d - (0 - lo * (1 / d))) / (1 / d) = x"
  by (simp add: field_simps)

text \<open>
  C6. For the label scaler fitted on training labels with minimum below maximum, a value
  \<open>x\<close> is transformed to \<open>(x - min) / (max - min)\<close> and the inverse transform returns
  \<open>x\<close> again (exactly, over the reals); a value within the training range lands in
  \<open>[0, 1]\<close>, a value below it lands below 0 and a value above it lands above 1: nothing
  is clamped.
\<close>

theorem label_scaler_round_trip:
  assumes "fit (reshape_column y_train) = Inr s"
    and "Min (set y_train) < Max (set y_train)"
  shows "\<exists>t. transform s (reshape_column [x]) = Inr [[t]] \<and>
             inverse_transform s [[t]] = Inr [[x]] \<and>
             t = (x - Min (set y_train)) / (Max (set y_train) - Min (set y_train)) \<and>
             (Min (set y_train) \<le> x \<and> x \<le> Max (set y_train) \<longrightarrow> 0 \<le> t \<and> t \<le> 1) \<and>
             (x < Min (set y_train) \<longrightarrow> t < 0) \<and>
             (Max (set y_train) < x \<longrightarrow> 1 < t)"
proof -
  have ne: "y_train \<noteq> []" using assms(1) by (auto simp: fit_def reshape_column_def)
  define lo where "lo = Min (set y_train)"
  define hi where "hi = Max (set y_train)"
  have d: "0 < hi - lo" using assms(2) by (simp add: lo_def hi_def)
  have s: "s = \<lparr>data_min = [lo], data_max = [hi], scale_attr = [1 / (hi - lo)],
                 min_attr = [0 - lo * (1 / (hi - lo))]\<rparr>"
    using assms(1) d fit_label [OF ne]
    by (simp add: amin_Min [OF ne] amax_Max [OF ne] lo_def hi_def handle_zeros_in_scale_def)
  define t where "t = (x - lo) / (hi - lo)"
  have t1: "transform s (reshape_column [x]) = Inr [[t]]"
    using d by (simp add: s transform_def check_rows_def reshape_column_def t_def diff_divide_distrib)
  have t2: "inverse_transform s [[t]] = Inr [[x]]"
    using d affine_inverse [of "hi - lo" x lo]
    by (simp add: s inverse_transform_def check_rows_def t_def)
  have t3: "lo \<le> x \<and> x \<le> hi \<longrightarrow> 0 \<le> t \<and> t \<le> 1"
    using d by (simp add: t_def)
  have t4: "x < lo \<longrightarrow> t < 0" using d by (simp add: t_def divide_less_0_iff)
  have t5: "hi < x \<longrightarrow> 1 < t" using d by (simp add: t_def)
  show ?thesis using t1 t2 t3 t4 t5 unfolding t_def lo_def hi_def by blast
qed

theorem label_scaler_round_trip_witness:
  "\<exists>t. transform \<lparr>data_min = [2], data_max = [6], scale_attr = [1 / 4], min_attr = [0 - 2 * (1 / 4)]\<rparr>
          (reshape_column [3]) = Inr [[t]] \<and>
       inverse_transform \<lparr>data_min = [2], data_max = [6], scale_attr = [1 / 4], min_attr = [0 - 2 * (1 / 4)]\<rparr>
          [[t]] = Inr [[3]] \<and> t = 1 / 4"
proof -
  have f: "fit (reshape_column [2, 6, 4]) =
             Inr \<lparr>data_min = [2], data_max = [6], scale_attr = [1 / 4], min_attr = [0 - 2 * (1 / 4)]\<rparr>"
    by (simp add: fit_def reshape_column_def column_def amin_def amax_def handle_zeros_in_scale_def)
  have m: "Min (set [2, 6, 4 :: real]) < Max (set [2, 6, 4 :: real])" by simp
  show ?thesis using label_scaler_round_trip [OF f m, of 3] by auto
qed

lemma fit_transform_Inr:
  "fit_transform X = Inr (s, Z) \<Longrightarrow> fit X = Inr s \<and> transform s X = Inr Z"
  by (auto simp: fit_transform_def split: sum.splits)

lemma scale_stage_Inr:
  assumes "scale_stage X_train X_test y_train y_test = Inr sc"
  shows "fit X_train = Inr (scaler_X sc) \<and>
         fit (reshape_column y_train) = Inr (scaler_y sc) \<and>
         transform (scaler_X sc) X_train = Inr (X_train_scaled sc) \<and>
         transform (scaler_X sc) X_test = Inr (X_test_scaled sc) \<and>
         (\<exists>Z. transform (scaler_y sc) (reshape_column y_train) = Inr Z \<and> y_train_scaled sc = flatten Z) \<and>
         (\<exists>Z. transform (scaler_y sc) (reshape_column y_test) = Inr Z \<and> y_test_scaled sc = flatten Z)"
  using assms unfolding scale_stage_def
  by (auto split: sum.splits dest!: fit_transform_Inr)

lemma fit_Inr_min_max:
  "fit X = Inr s \<Longrightarrow>
     data_min s = map (\<lambda>j. amin (column X j)) [0 ..< length (hd X)] \<and>
     data_max s = map (\<lambda>j. amax (column X j)) [0 ..< length (hd X)]"
  by (auto simp: fit_def Let_def split: if_splits)

text \<open>
  C5. Two runs of the scaling stage on the same training partition and any two test
  partitions end with the same two fitted scalers: each is the result of fitting on the
  training features, respectively labels, alone, its minimum and maximum are those of the
  training columns, and the test partition is transformed with these same parameters.
\<close>

theorem scalers_fit_on_training_only:
  assumes "scale_stage X_train X_test y_train y_test = Inr sc"
    and "scale_stage X_train X_test' y_train y_test' = Inr sc'"
  shows "scaler_X sc' = scaler_X sc \<and> scaler_y sc' = scaler_y sc \<and>
         fit X_train = Inr (scaler_X sc) \<and>
         fit (reshape_column y_train) = Inr (scaler_y sc) \<and>
         data_min (scaler_X sc) = map (\<lambda>j. amin (column X_train j)) [0 ..< length (hd X_train)] \<and>
         data_max (scaler_X sc) = map (\<lambda>j. amax (column X_train j)) [0 ..< length (hd X_train)] \<and>
         data_min (scaler_y sc) = [amin y_train] \<and> data_max (scaler_y sc) = [amax y_train] \<and>
         transform (scaler_X sc) X_test = Inr (X_test_scaled sc) \<and>
         (\<exists>Z. transform (scaler_y sc) (reshape_column y_test) = Inr Z \<and> y_test_scaled sc = flatten Z)"
proof -
  note a = scale_stage_Inr [OF assms(1)] and b = scale_stage_Inr [OF assms(2)]
  have x: "scaler_X sc' = scaler_X sc" using a b by simp
  have y: "scaler_y sc' = scaler_y sc" using a b by simp
  have ne: "y_train \<noteq> []" using a by (auto simp: fit_def reshape_column_def)
  have "Inr (scaler_y sc) = fit (reshape_column y_train)" using a by simp
  then have "scaler_y sc = \<lparr>data_min = [amin y_train], data_max = [amax y_train],
          scale_attr = [1 / handle_zeros_in_scale (amax y_train - amin y_train)],
          min_attr = [0 - amin y_train * (1 / handle_zeros_in_scale (amax y_train - amin y_train))]\<rparr>"
    unfolding fit_label [OF ne] by simp
  then have ymm: "data_min (scaler_y sc) = [amin y_train] \<and> data_max (scaler_y sc) = [amax y_train]"
    by simp
  show ?thesis using x y a ymm fit_Inr_min_max [of X_train "scaler_X sc"] by simp
qed

theorem scalers_fit_on_training_only_witness:
  "\<exists>sc sc'. scale_stage [[1, 4], [3, 2]] [[5, 5]] [1, 3] [7] = Inr sc \<and>
            scale_stage [[1, 4], [3, 2]] [[0, 9], [2, 2]] [1, 3] [0, 1] = Inr sc' \<and>
            scaler_X sc' = scaler_X sc \<and> scaler_y sc' = scaler_y sc \<and>
            data_min (scaler_X sc) = [1, 2] \<and> data_max (scaler_X sc) = [3, 4] \<and>
            data_min (scaler_y sc) = [1] \<and> data_max (scaler_y sc) = [3]"
proof -
  have s: "fit [[1, 4], [3, 2]] = Inr \<lparr>data_min = [1, 2], data_max = [3, 4], scale_attr = [1 / 2, 1 / 2],
              min_attr = [- (1 / 2), - 1]\<rparr>"
    by (simp add: fit_def column_def amin_def amax_def handle_zeros_in_scale_def upt_conv_Cons)
  have t: "fit [[1], [3]] = Inr \<lparr>data_min = [1], data_max = [3], scale_attr = [1 / 2],
              min_attr = [- (1 / 2)]\<rparr>"
    by (simp add: fit_def column_def amin_def amax_def handle_zeros_in_scale_def reshape_column_def)
  obtain sc where sc: "scale_stage [[1, 4], [3, 2]] [[5, 5]] [1, 3] [7] = Inr sc"
    by (simp add: scale_stage_def fit_transform_def s t transform_def check_rows_def reshape_column_def)
  obtain sc' where sc': "scale_stage [[1, 4], [3, 2]] [[0, 9], [2, 2]] [1, 3] [0, 1] = Inr sc'"
    by (simp add: scale_stage_def fit_transform_def s t transform_def check_rows_def reshape_column_def)
  show ?thesis
    using scalers_fit_on_training_only [OF sc sc'] sc sc'
    by (auto simp: column_def amin_def amax_def upt_conv_Cons)
qed

section \<open>Properties of the metrics\<close>

lemma foldl_exact: "foldl (\<lambda>s x. exact (s + x)) a xs = a + sum_list xs"
  by (induction xs arbitrary: a) (simp_all add: exact_def)

lemma mean_exact: "mean exact xs = sum_list xs / real (length xs)"
  by (simp add: mean_def fl_sum_def foldl_exact) (simp add: exact_def)

lemma sum_list_dev:
  "sum_list (map (\<lambda>r. (\<bar>r\<bar> - m)\<^sup>2) rs)
     = sum_list (map (\<lambda>r. r\<^sup>2) rs) - 2 * m * sum_list (map abs rs) + real (length rs) * m\<^sup>2"
  by (induction rs) (simp_all add: power2_eq_square algebra_simps)

lemma mean_abs_le_rms:
  assumes "rs \<noteq> []"
  shows "(sum_list (map abs rs) / real (length rs))\<^sup>2 \<le> sum_list (map (\<lambda>r. r\<^sup>2) rs) / real (length rs)"
proof -
  define n where "n = real (length rs)"
  define m where "m = sum_list (map abs rs) / n"
  have n: "0 < n" using assms by (simp add: n_def)
  have sm: "sum_list (map abs rs) = n * m" using n by (simp add: m_def)
  have "0 \<le> sum_list (map (\<lambda>r. (\<bar>r\<bar> - m)\<^sup>2) rs)" by (rule sum_list_nonneg) auto
  also have "\<dots> = sum_list (map (\<lambda>r. r\<^sup>2) rs) - 2 * m * (n * m) + n * m\<^sup>2"
    by (simp add: sum_list_dev sm n_def)
  also have "\<dots> = sum_list (map (\<lambda>r. r\<^sup>2) rs) - n * m\<^sup>2"
    by (simp add: power2_eq_square algebra_simps)
  finally have "n * m\<^sup>2 \<le> sum_list (map (\<lambda>r. r\<^sup>2) rs)" by simp
  then have "m\<^sup>2 \<le> sum_list (map (\<lambda>r. r\<^sup>2) rs) / n"
    using n by (simp add: pos_le_divide_eq mult.commute)
  then show ?thesis unfolding m_def n_def by simp
qed

lemma mean_abs_nonneg: "0 \<le> sum_list (map abs rs) / real (length rs)"
  for rs :: "real list"
  by (intro divide_nonneg_nonneg sum_list_nonneg) auto

text \<open>
  C9 (as amended). In arithmetic without rounding, for a non-empty test split with one
  prediction per test label, both metrics are computed, RMSE is the root of the mean
  squared residual, MAE the mean absolute residual of the same residual vector, and
  RMSE \<open>\<ge>\<close> MAE \<open>\<ge>\<close> 0.
\<close>

theorem rmse_ge_mae:
  assumes "y_test \<noteq> []" and "length predictions = length y_test"
  shows "\<exists>r m. rmse_of exact y_test predictions = Inr r \<and>
               mean_absolute_error exact y_test predictions = Inr m \<and>
               r = sqrt (sum_list (map (\<lambda>(a, p). (a - p)\<^sup>2) (zip y_test predictions))
                         / real (length y_test)) \<and>
               m = sum_list (map (\<lambda>(a, p). \<bar>a - p\<bar>) (zip y_test predictions))
                     / real (length y_test) \<and>
               m \<le> r \<and> 0 \<le> m"
proof -
  define rs where "rs = map (\<lambda>(a, p). a - p) (zip y_test predictions)"
  have len: "length rs = length y_test" using assms by (simp add: rs_def)
  have ne: "rs \<noteq> []" using len assms(1) by auto
  have res: "residuals exact y_test predictions = rs"
    by (simp add: residuals_def rs_def exact_def)
  have sq: "map (\<lambda>e. exact (e * e)) rs = map (\<lambda>r. r\<^sup>2) rs"
    by (simp add: exact_def power2_eq_square)
  have s2: "sum_list (map (\<lambda>r. r\<^sup>2) rs) = sum_list (map (\<lambda>(a, p). (a - p)\<^sup>2) (zip y_test predictions))"
    by (simp add: rs_def comp_def case_prod_unfold)
  have s1: "sum_list (map abs rs) = sum_list (map (\<lambda>(a, p). \<bar>a - p\<bar>) (zip y_test predictions))"
    by (simp add: rs_def comp_def case_prod_unfold)
  have ok: "check_targets y_test predictions" using assms by (simp add: check_targets_def)
  have m0: "0 \<le> sum_list (map abs rs) / real (length rs)" by (rule mean_abs_nonneg)
  have "sqrt ((sum_list (map abs rs) / real (length rs))\<^sup>2)
          \<le> sqrt (sum_list (map (\<lambda>r. r\<^sup>2) rs) / real (length rs))"
    using mean_abs_le_rms [OF ne] by (rule real_sqrt_le_mono)
  moreover have "0 \<le> sum_list (map abs rs)" by (rule sum_list_nonneg) auto
  ultimately have le: "sum_list (map abs rs) / real (length rs)
          \<le> sqrt (sum_list (map (\<lambda>r. r\<^sup>2) rs) / real (length rs))"
    by simp
  have r: "rmse_of exact y_test predictions
             = Inr (sqrt (sum_list (map (\<lambda>r. r\<^sup>2) rs) / real (length rs)))"
    by (simp add: rmse_of_def mean_squared_error_def ok res sq mean_exact) (simp add: exact_def)
  have m: "mean_absolute_error exact y_test predictions
             = Inr (sum_list (map abs rs) / real (length rs))"
    by (simp add: mean_absolute_error_def ok res mean_exact)
  show ?thesis using r m le m0 by (simp add: s1 s2 len)
qed

theorem rmse_ge_mae_witness:
  "\<exists>r m. rmse_of exact [3, 5] [0, 1] = Inr r \<and> mean_absolute_error exact [3, 5] [0, 1] = Inr m \<and>
         m = 7 / 2 \<and> m \<le> r"
  using rmse_ge_mae [of "[3, 5]" "[0, 1]"] by auto

lemma round_half_even_near:
  assumes "\<bar>y - of_int m\<bar> < 1 / 2"
  shows "round_half_even y = m"
proof (cases "of_int m \<le> y")
  case True
  then have "\<lfloor>y\<rfloor> = m" using assms by (intro floor_unique) auto
  then show ?thesis using assms True by (simp add: round_half_even_def Let_def)
next
  case False
  then have f: "\<lfloor>y\<rfloor> = m - 1" using assms by (intro floor_unique) auto
  have "1 / 2 < y - of_int (m - 1)" using assms False by auto
  then show ?thesis using f by (simp add: round_half_even_def Let_def)
qed

lemma round_half_even_tie:
  assumes "y = of_int f + 1 / 2"
  shows "round_half_even y = (if even f then f else f + 1)"
proof -
  have "\<lfloor>y\<rfloor> = f" using assms by (intro floor_unique) auto
  then show ?thesis using assms by (simp add: round_half_even_def Let_def)
qed

lemma binary64_ulp:
  fixes x :: real
  assumes lo: "2 ^ 52 \<le> \<bar>x\<bar> * 2 ^ k" and hi: "\<bar>x\<bar> * 2 ^ k < 2 ^ 53"
  shows "binary64 x = of_int (round_half_even (x * 2 ^ k)) / 2 ^ k"
proof -
  have x0: "x \<noteq> 0" using lo by auto
  then have pos: "0 < \<bar>x\<bar>" by simp
  have p: "(2::real) powr (52 - real k) = 2 ^ 52 / 2 ^ k"
    by (simp add: powr_diff powr_realpow)
  have q: "(2::real) powr (53 - real k) = 2 ^ 53 / 2 ^ k"
    by (simp add: powr_diff powr_realpow)
  have "2 powr (52 - real k) \<le> \<bar>x\<bar>" unfolding p using lo by (simp add: field_simps)
  then have a: "52 - real k \<le> log 2 \<bar>x\<bar>" using pos by (simp add: le_log_iff)
  have "\<bar>x\<bar> < 2 powr (53 - real k)" unfolding q using hi by (simp add: field_simps)
  then have b: "log 2 \<bar>x\<bar> < 53 - real k" using pos by (simp add: log_less_iff)
  have "\<lfloor>log 2 \<bar>x\<bar>\<rfloor> = 52 - int k" using a b by (intro floor_unique) auto
  then have "(2::real) powr (of_int \<lfloor>log 2 \<bar>x\<bar>\<rfloor> - 52) = 2 powr (- real k)" by simp
  also have "\<dots> = 1 / 2 ^ k" by (simp add: powr_minus powr_realpow inverse_eq_divide)
  finally have u: "(2::real) powr (of_int \<lfloor>log 2 \<bar>x\<bar>\<rfloor> - 52) = 1 / 2 ^ k" .
  show ?thesis using x0 by (simp add: binary64_def Let_def u)
qed

lemma binary64_near:
  fixes x :: real
  assumes "2 ^ 52 \<le> \<bar>x\<bar> * 2 ^ k" and "\<bar>x\<bar> * 2 ^ k < 2 ^ 53"
    and "\<bar>x * 2 ^ k - of_int m\<bar> < 1 / 2"
  shows "binary64 x = of_int m / 2 ^ k"
  using binary64_ulp [OF assms(1,2)] round_half_even_near [OF assms(3)] by simp


lemma tenth_id: "binary64 tenth = tenth"
  unfolding tenth_def
  by (rule binary64_near [where k = 56 and m = 7205759403792794, THEN trans]) simp_all

lemma tenth_acc1: "binary64 (0 + tenth) = tenth"
  unfolding tenth_def
  by (rule binary64_near [where k = 56 and m = 7205759403792794, THEN trans]) simp_all

lemma tenth_acc2: "binary64 (tenth + tenth) = 3602879701896397 / 2 ^ 54"
  unfolding tenth_def
  by (rule binary64_near [where k = 55 and m = 7205759403792794, THEN trans]) simp_all

lemma tenth_acc3: "binary64 (3602879701896397 / 2 ^ 54 + tenth) = 5404319552844596 / 2 ^ 54"
proof -
  have "binary64 (3602879701896397 / 2 ^ 54 + tenth)
          = of_int (round_half_even ((3602879701896397 / 2 ^ 54 + tenth) * 2 ^ 54)) / 2 ^ 54"
    unfolding tenth_def by (rule binary64_ulp) simp_all
  moreover have "round_half_even ((3602879701896397 / 2 ^ 54 + tenth) * 2 ^ 54) = 5404319552844596"
    using round_half_even_tie [of "(3602879701896397 / 2 ^ 54 + tenth) * 2 ^ 54" 5404319552844595]
    by (simp add: tenth_def)
  ultimately show ?thesis by simp
qed

lemma tenth_mean: "binary64 (5404319552844596 / 2 ^ 54 / real (length [tenth, tenth, tenth])) = 7205759403792795 / 2 ^ 56"
  by (rule binary64_near [where k = 56 and m = 7205759403792795, THEN trans]) simp_all


lemma tenth_square: "binary64 (tenth * tenth) = hundredth"
  unfolding tenth_def hundredth_def
  by (rule binary64_near [where k = 59 and m = 5764607523034236, THEN trans]) simp_all

lemma hundredth_acc1: "binary64 (0 + hundredth) = hundredth"
  unfolding hundredth_def
  by (rule binary64_near [where k = 59 and m = 5764607523034236, THEN trans]) simp_all

lemma hundredth_acc2: "binary64 (hundredth + hundredth) = 5764607523034236 / 2 ^ 58"
  unfolding hundredth_def
  by (rule binary64_near [where k = 58 and m = 5764607523034236, THEN trans]) simp_all

lemma hundredth_acc3: "binary64 (5764607523034236 / 2 ^ 58 + hundredth) = 8646911284551354 / 2 ^ 58"
  unfolding hundredth_def
  by (rule binary64_near [where k = 58 and m = 8646911284551354, THEN trans]) simp_all

lemma hundredth_mean:
  "binary64 (8646911284551354 / 2 ^ 58 / real (length [hundredth, hundredth, hundredth])) = hundredth"
  unfolding hundredth_def
  by (rule binary64_near [where k = 59 and m = 5764607523034236, THEN trans]) simp_all

lemma abs_bracket:
  fixes v m :: real
  assumes "m - 1 / 2 < v" and "v < m + 1 / 2"
  shows "\<bar>v - m\<bar> < 1 / 2"
  using assms by linarith

lemma hundredth_sqrt: "binary64 (sqrt hundredth) = tenth"
proof -
  have lo: "14411518807585587 / 2 ^ 57 < sqrt hundredth"
    by (rule real_less_rsqrt) (simp add: hundredth_def power2_eq_square)
  have hi: "sqrt hundredth < 14411518807585589 / 2 ^ 57"
    by (rule real_less_lsqrt) (simp_all add: hundredth_def power2_eq_square)
  have pos: "0 < sqrt hundredth" by (simp add: hundredth_def)
  have "binary64 (sqrt hundredth) = of_int 7205759403792794 / 2 ^ 56"
  proof (rule binary64_near)
    show "2 ^ 52 \<le> \<bar>sqrt hundredth\<bar> * 2 ^ 56" using lo pos by simp
    show "\<bar>sqrt hundredth\<bar> * 2 ^ 56 < 2 ^ 53" using hi pos by simp
    have "14411518807585587 / 2 ^ 57 * 2 ^ 56 < sqrt hundredth * 2 ^ 56"
      using lo by (rule mult_strict_right_mono) simp
    then have a: "7205759403792794 - 1 / 2 < sqrt hundredth * 2 ^ 56" by simp
    have "sqrt hundredth * 2 ^ 56 < 14411518807585589 / 2 ^ 57 * 2 ^ 56"
      using hi by (rule mult_strict_right_mono) simp
    then have b: "sqrt hundredth * 2 ^ 56 < 7205759403792794 + 1 / 2" by simp
    show "\<bar>sqrt hundredth * 2 ^ 56 - of_int 7205759403792794\<bar> < 1 / 2"
      using abs_bracket [OF a b] by simp
  qed
  then show ?thesis by (simp add: tenth_def)
qed

text \<open>
  In doubles the order can fail in the last place: for three test values equal to the
  double nearest to 0.1 and predictions of zero, RMSE is that double and MAE is the next
  double above it.
\<close>

theorem rmse_below_mae_in_binary64:
  "rmse_of binary64 [tenth, tenth, tenth] [0, 0, 0] = Inr tenth \<and>
   mean_absolute_error binary64 [tenth, tenth, tenth] [0, 0, 0] = Inr (tenth + 1 / 2 ^ 56) \<and>
   tenth < tenth + 1 / 2 ^ 56"
proof -
  have r: "residuals binary64 [tenth, tenth, tenth] [0, 0, 0] = [tenth, tenth, tenth]"
    by (simp add: residuals_def tenth_id)
  have "fl_sum binary64 [tenth, tenth, tenth]
          = binary64 (binary64 (binary64 (0 + tenth) + tenth) + tenth)"
    by (simp add: fl_sum_def)
  also have "\<dots> = 5404319552844596 / 2 ^ 54"
    by (simp only: tenth_acc1 tenth_acc2 tenth_acc3)
  finally have "mean binary64 [tenth, tenth, tenth] = 7205759403792795 / 2 ^ 56"
    unfolding mean_def by (simp only: tenth_mean)
  then have m: "mean binary64 [tenth, tenth, tenth] = tenth + 1 / 2 ^ 56"
    by (simp add: tenth_def)
  have "fl_sum binary64 [hundredth, hundredth, hundredth]
          = binary64 (binary64 (binary64 (0 + hundredth) + hundredth) + hundredth)"
    by (simp add: fl_sum_def)
  also have "\<dots> = 8646911284551354 / 2 ^ 58"
    by (simp only: hundredth_acc1 hundredth_acc2 hundredth_acc3)
  finally have q: "mean binary64 [hundredth, hundredth, hundredth] = hundredth"
    unfolding mean_def by (simp only: hundredth_mean)
  have ok: "check_targets [tenth, tenth, tenth] [0, 0, 0]" by (simp add: check_targets_def)
  have a: "\<bar>tenth\<bar> = tenth" by (simp add: tenth_def)
  have "mean_squared_error binary64 [tenth, tenth, tenth] [0, 0, 0] = Inr hundredth"
    by (simp add: mean_squared_error_def ok r tenth_square q)
  then have "rmse_of binary64 [tenth, tenth, tenth] [0, 0, 0] = Inr tenth"
    by (simp add: rmse_of_def hundredth_sqrt)
  moreover have "mean_absolute_error binary64 [tenth, tenth, tenth] [0, 0, 0] = Inr (tenth + 1 / 2 ^ 56)"
    by (simp add: mean_absolute_error_def ok r m a)
  ultimately show ?thesis by simp
qed

section \<open>Properties of the per-town analysis\<close>

lemma foldl_finite:
  "foldl np_add (Finite s) (map Finite xs) = Finite (s + sum_list xs)"
  by (induction xs arbitrary: s) (simp_all add: add.assoc)

lemma np_mean_finite:
  "xs \<noteq> [] \<Longrightarrow> np_mean (map Finite xs) = Finite (sum_list xs / real (length xs))"
  by (simp add: np_mean_def foldl_finite)

lemma foldl_pinf_acc: "\<forall>v \<in> set ws. v = PInf \<or> is_finite v \<Longrightarrow> foldl np_add PInf ws = PInf"
  by (induction ws) (auto simp: is_finite_def split: npfloat.splits)

lemma foldl_pinf:
  "\<forall>v \<in> set ws. v = PInf \<or> is_finite v \<Longrightarrow> PInf \<in> set ws \<Longrightarrow>
   foldl np_add (Finite s) ws = PInf"
proof (induction ws arbitrary: s)
  case Nil
  then show ?case by simp
next
  case (Cons w ws)
  show ?case
  proof (cases w)
    case (Finite x)
    then have "PInf \<in> set ws" using Cons.prems(2) by auto
    then show ?thesis using Cons Finite by simp
  next
    case PInf
    then show ?thesis using Cons.prems(1) foldl_pinf_acc [of ws] by simp
  next
    case NInf
    then show ?thesis using Cons.prems(1) by (auto simp: is_finite_def)
  next
    case NaN
    then show ?thesis using Cons.prems(1) by (auto simp: is_finite_def)
  qed
qed

lemma np_mean_pinf:
  assumes "\<forall>v \<in> set ws. v = PInf \<or> is_finite v" and "PInf \<in> set ws"
  shows "np_mean ws = PInf"
proof -
  have "ws \<noteq> []" using assms(2) by auto
  then show ?thesis using foldl_pinf [OF assms] by (simp add: np_mean_def)
qed

lemma np_abs_divide_cases:
  "np_abs (np_divide x d) = PInf \<or> np_abs (np_divide x d) = NaN \<or> is_finite (np_abs (np_divide x d))"
  by (simp add: np_divide_def is_finite_def)

lemma ratios_finite_iff:
  "list_all is_finite (town_ratios x) \<longleftrightarrow> (\<forall>(a, p) \<in> set x. a \<noteq> 0)"
  by (auto simp: town_ratios_def list_all_iff np_divide_def is_finite_def split: if_splits)

lemma town_ratios_nonzero:
  assumes "\<forall>(a, p) \<in> set x. a \<noteq> 0"
  shows "map np_abs (town_ratios x) = map Finite (map (\<lambda>(a, p). \<bar>(a - p) / a\<bar>) x)"
  using assms by (auto simp: town_ratios_def np_divide_def)

lemma filter_Finite: "filter (\<lambda>v. v \<noteq> NaN) (map Finite xs) = map Finite xs"
  by (induction xs) simp_all

lemma group_metrics_Inr:
  assumes "x \<noteq> []"
  shows "\<exists>m. group_metrics x = Inr m \<and>
             MAPE m = np_times 100 (series_mean (map np_abs (town_ratios x)))"
proof -
  have ok: "check_targets (map fst x) (map snd x)" using assms by (simp add: check_targets_def)
  show ?thesis using ok
    by (simp add: group_metrics_def rmse_of_def mean_squared_error_def mean_absolute_error_def)
qed

lemma town_mape_finite:
  assumes "x \<noteq> []" and "\<forall>(a, p) \<in> set x. a \<noteq> 0"
  shows "np_times 100 (series_mean (map np_abs (town_ratios x)))
           = Finite (sum_list (map (\<lambda>(a, p). \<bar>(a - p) / a\<bar>) x) / real (length x) * 100)"
  using assms(1) np_mean_finite [of "map (\<lambda>(a, p). \<bar>(a - p) / a\<bar>) x"]
  by (simp add: town_ratios_nonzero [OF assms(2)] series_mean_def filter_Finite)

lemma town_mape_pinf:
  assumes "(0, p) \<in> set x" and "p \<noteq> 0"
  shows "np_times 100 (series_mean (map np_abs (town_ratios x))) = PInf"
proof -
  let ?ws = "filter (\<lambda>v. v \<noteq> NaN) (map np_abs (town_ratios x))"
  have "np_abs (np_divide (0 - p) 0) = PInf" using assms(2) by (simp add: np_divide_def)
  moreover have "np_abs (np_divide (0 - p) 0) \<in> set (map np_abs (town_ratios x))"
    using assms(1) by (force simp: town_ratios_def)
  ultimately have mem: "PInf \<in> set ?ws" by simp
  have "\<forall>v \<in> set ?ws. v = PInf \<or> is_finite v"
    using np_abs_divide_cases by (auto simp: town_ratios_def)
  then have "np_mean ?ws = PInf" using mem by (rule np_mean_pinf)
  then show ?thesis by (simp add: series_mean_def)
qed

lemma mape_ratios_finite_iff:
  assumes "length y_test = length preds"
  shows "list_all is_finite (mape_ratios y_test preds) \<longleftrightarrow> (\<forall>a \<in> set y_test. a + 1 / 10 ^ 8 \<noteq> 0)"
proof -
  have s: "fst ` set (zip y_test preds) = set y_test"
    using assms by (metis map_fst_zip set_map)
  have "list_all is_finite (mape_ratios y_test preds)
          \<longleftrightarrow> (\<forall>a \<in> fst ` set (zip y_test preds). a + 1 / 10 ^ 8 \<noteq> 0)"
    by (auto simp: mape_ratios_def list_all_iff np_divide_def is_finite_def split: if_splits)
  then show ?thesis using s by simp
qed

lemma mape_of_finite:
  assumes "length y_test = length preds" and "y_test \<noteq> []"
    and "\<forall>a \<in> set y_test. a + 1 / 10 ^ 8 \<noteq> 0"
  shows "mape_of y_test preds
           = Finite (sum_list (map (\<lambda>(a, p). \<bar>(a - p) / (a + 1 / 10 ^ 8)\<bar>) (zip y_test preds))
                       / real (length y_test) * 100)"
proof -
  have z: "zip y_test preds \<noteq> []" using assms(1,2) by (cases y_test; cases preds) auto
  have "\<forall>(a, p) \<in> set (zip y_test preds). a + 1 / 10 ^ 8 \<noteq> 0"
    using assms(3) by (auto dest: set_zip_leftD)
  then have "map np_abs (mape_ratios y_test preds)
          = map Finite (map (\<lambda>(a, p). \<bar>(a - p) / (a + 1 / 10 ^ 8)\<bar>) (zip y_test preds))"
    by (auto simp: mape_ratios_def np_divide_def)
  then show ?thesis
    using z np_mean_finite [of "map (\<lambda>(a, p). \<bar>(a - p) / (a + 1 / 10 ^ 8)\<bar>) (zip y_test preds)"] assms(1)
    by (simp add: mape_of_def)
qed

lemma group_rows_key: "k \<in> set (group_keys joined) \<Longrightarrow> group_rows joined k \<noteq> []"
  by (auto simp: group_keys_def group_rows_def filter_empty_conv split: option.splits)

lemma group_keys_mem:
  assumes "(Some k, ap) \<in> set joined"
  shows "k \<in> set (group_keys joined)"
proof -
  define g :: "string option \<times> real \<times> real \<Rightarrow> string list"
    where "g = (\<lambda>(t, ap). case t of None \<Rightarrow> [] | Some k \<Rightarrow> [k])"
  have "k \<in> set (g (Some k, ap))" by (simp add: g_def)
  then have "k \<in> set (concat (map g joined))"
    using assms by (simp only: set_concat set_map) blast
  then show ?thesis by (simp add: group_keys_def g_def)
qed

lemma apply_groups_Inr:
  "\<forall>k \<in> set ks. group_rows joined k \<noteq> [] \<Longrightarrow>
   \<exists>ms. apply_groups joined ks = Inr ms \<and> map fst ms = ks \<and>
        (\<forall>(k, m) \<in> set ms. group_metrics (group_rows joined k) = Inr m)"
proof (induction ks)
  case Nil
  then show ?case by simp
next
  case (Cons k ks)
  then obtain ms where ms: "apply_groups joined ks = Inr ms" "map fst ms = ks"
      "\<forall>(k, m) \<in> set ms. group_metrics (group_rows joined k) = Inr m" by auto
  obtain m where m: "group_metrics (group_rows joined k) = Inr m"
    using Cons.prems group_metrics_Inr [of "group_rows joined k"] by auto
  show ?case using ms m by simp
qed

lemma join_town_mem:
  assumes "(d, a, p) \<in> set results" and "r \<in> set df" and "date r = d"
  shows "(town r, a, p) \<in> set (join_town results df)"
proof -
  define g :: "timestamp \<times> real \<times> real \<Rightarrow> (string option \<times> real \<times> real) list"
    where "g = (\<lambda>(d, a, p).
        (case filter (\<lambda>r. date r = d) df of
           [] \<Rightarrow> [(None, a, p)]
         | ms \<Rightarrow> map (\<lambda>r. (town r, a, p)) ms))"
  have f: "r \<in> set (filter (\<lambda>r. date r = d) df)" using assms by simp
  then obtain m ms where ms: "filter (\<lambda>r. date r = d) df = m # ms"
    by (cases "filter (\<lambda>r. date r = d) df") auto
  have "g (d, a, p) = map (\<lambda>r. (town r, a, p)) (filter (\<lambda>r. date r = d) df)"
    by (simp add: g_def ms)
  then have "(town r, a, p) \<in> set (g (d, a, p))" using f by (simp add: image_iff) blast
  moreover have "join_town results df = concat (map g results)"
    by (simp add: join_town_def g_def)
  ultimately show ?thesis using assms(1) by (simp only: set_concat set_map) blast
qed


text \<open>
  C10. The per-town MAPE divides by the raw actual values: for a non-empty group the
  metrics are computed, and every quotient of the group is a finite number exactly when
  every actual value of the group is non-zero. Then the MAPE is the finite mean
  percentage; a row with actual value zero and another prediction makes it infinite (a
  row with both zero gives \<open>nan\<close>, which the mean of a Series skips). The main MAPE,
  whose divisor is the actual value plus \<open>1e-8\<close>, has finite quotients exactly when no
  actual value is \<open>-1e-8\<close>, so always on non-negative values. The unguarded division is
  reachable: with a town column, a test value that is zero and a row of the table that
  carries its date and a town, the analysis returns the metrics of that town's group,
  which contains the row with the zero divisor.
\<close>

theorem town_mape_unguarded:
  "(x \<noteq> [] \<longrightarrow>
      (\<exists>m. group_metrics x = Inr m \<and>
           (list_all is_finite (town_ratios x) = (\<forall>(a, p) \<in> set x. a \<noteq> 0)) \<and>
           ((\<forall>(a, p) \<in> set x. a \<noteq> 0) \<longrightarrow>
              MAPE m = Finite (sum_list (map (\<lambda>(a, p). \<bar>(a - p) / a\<bar>) x) / real (length x) * 100)) \<and>
           ((\<exists>(a, p) \<in> set x. a = 0 \<and> p \<noteq> 0) \<longrightarrow> MAPE m = PInf))) \<and>
   (length y_test = length preds \<and> y_test \<noteq> [] \<longrightarrow>
      (list_all is_finite (mape_ratios y_test preds) = (\<forall>a \<in> set y_test. a + 1 / 10 ^ 8 \<noteq> 0)) \<and>
      ((\<forall>a \<in> set y_test. 0 \<le> a) \<longrightarrow> is_finite (mape_of y_test preds))) \<and>
   (has_town df \<and> length y_test = length preds \<and> length preds = length test_index \<and>
    i < length y_test \<and> y_test ! i = 0 \<and>
    r \<in> set (rows df) \<and> date r = test_index ! i \<and> town r = Some t \<longrightarrow>
      (\<exists>tbl m. analyze_town_performance y_test preds test_index df = Inr (Some tbl) \<and>
               map_of tbl t = Some m \<and>
               group_metrics (group_rows (join_town (zip test_index (zip y_test preds)) (rows df)) t)
                 = Inr m \<and>
               (0, preds ! i) \<in> set (group_rows (join_town (zip test_index (zip y_test preds)) (rows df)) t) \<and>
               \<not> is_finite (np_divide (0 - preds ! i) 0) \<and>
               (preds ! i \<noteq> 0 \<longrightarrow> MAPE m = PInf)))"
proof (intro conjI impI)
  assume ne: "x \<noteq> []"
  obtain m where m: "group_metrics x = Inr m"
      "MAPE m = np_times 100 (series_mean (map np_abs (town_ratios x)))"
    using group_metrics_Inr [OF ne] by blast
  have a: "(\<forall>(a, p) \<in> set x. a \<noteq> 0) \<longrightarrow>
      MAPE m = Finite (sum_list (map (\<lambda>(a, p). \<bar>(a - p) / a\<bar>) x) / real (length x) * 100)"
    using town_mape_finite [OF ne] m(2) by simp
  have b: "(\<exists>(a, p) \<in> set x. a = 0 \<and> p \<noteq> 0) \<longrightarrow> MAPE m = PInf"
    using town_mape_pinf m(2) by auto
  show "\<exists>m. group_metrics x = Inr m \<and>
           (list_all is_finite (town_ratios x) = (\<forall>(a, p) \<in> set x. a \<noteq> 0)) \<and>
           ((\<forall>(a, p) \<in> set x. a \<noteq> 0) \<longrightarrow>
              MAPE m = Finite (sum_list (map (\<lambda>(a, p). \<bar>(a - p) / a\<bar>) x) / real (length x) * 100)) \<and>
           ((\<exists>(a, p) \<in> set x. a = 0 \<and> p \<noteq> 0) \<longrightarrow> MAPE m = PInf)"
    using m(1) a b ratios_finite_iff [of x] by blast
next
  assume h: "length y_test = length preds \<and> y_test \<noteq> []"
  then show "list_all is_finite (mape_ratios y_test preds) = (\<forall>a \<in> set y_test. a + 1 / 10 ^ 8 \<noteq> 0)"
    using mape_ratios_finite_iff by blast
  assume nn: "\<forall>a \<in> set y_test. 0 \<le> a"
  have "\<forall>a \<in> set y_test. a + 1 / 10 ^ 8 \<noteq> 0"
  proof
    fix a assume "a \<in> set y_test"
    then have "0 \<le> a" using nn by blast
    moreover have "(0::real) < 1 / 10 ^ 8" by simp
    ultimately show "a + 1 / 10 ^ 8 \<noteq> 0" by linarith
  qed
  then show "is_finite (mape_of y_test preds)"
    using h mape_of_finite [of y_test preds] by (simp add: is_finite_def)
next
  assume h: "has_town df \<and> length y_test = length preds \<and> length preds = length test_index \<and>
    i < length y_test \<and> y_test ! i = 0 \<and>
    r \<in> set (rows df) \<and> date r = test_index ! i \<and> town r = Some t"
  define results where "results = zip test_index (zip y_test preds)"
  define joined where "joined = join_town results (rows df)"
  have "results ! i = (test_index ! i, 0, preds ! i)" using h by (simp add: results_def)
  moreover have "i < length results" using h by (simp add: results_def)
  ultimately have "(test_index ! i, 0, preds ! i) \<in> set results" by (metis nth_mem)
  then have j: "(Some t, 0, preds ! i) \<in> set joined"
    using join_town_mem [of "test_index ! i" 0 "preds ! i" results r "rows df"] h
    by (simp add: joined_def)
  then have key: "t \<in> set (group_keys joined)" by (rule group_keys_mem)
  have "\<forall>k \<in> set (group_keys joined). group_rows joined k \<noteq> []"
    using group_rows_key by blast
  then obtain tbl where tbl: "apply_groups joined (group_keys joined) = Inr tbl"
      "map fst tbl = group_keys joined"
      "\<forall>(k, m) \<in> set tbl. group_metrics (group_rows joined k) = Inr m"
    using apply_groups_Inr by blast
  have "t \<in> fst ` set tbl" using key tbl(2) by (metis set_map)
  then obtain m where m: "map_of tbl t = Some m" by (metis domD dom_map_of_conv_image_fst)
  then have "(t, m) \<in> set tbl" by (rule map_of_SomeD)
  then have gm: "group_metrics (group_rows joined t) = Inr m" using tbl(3) by auto
  have mem: "(0, preds ! i) \<in> set (group_rows joined t)"
    using j by (force simp: group_rows_def)
  then have ne: "group_rows joined t \<noteq> []" by auto
  have mp: "MAPE m = np_times 100 (series_mean (map np_abs (town_ratios (group_rows joined t))))"
    using group_metrics_Inr [OF ne] gm by auto
  have inf: "preds ! i \<noteq> 0 \<longrightarrow> MAPE m = PInf"
    using town_mape_pinf [OF mem] mp by simp
  have nf: "\<not> is_finite (np_divide (0 - preds ! i) 0)"
    by (simp add: np_divide_def is_finite_def)
  have an: "analyze_town_performance y_test preds test_index df = Inr (Some tbl)"
    using h tbl(1) by (simp add: analyze_town_performance_def results_def joined_def Let_def)
  show "\<exists>tbl m. analyze_town_performance y_test preds test_index df = Inr (Some tbl) \<and>
               map_of tbl t = Some m \<and>
               group_metrics (group_rows (join_town (zip test_index (zip y_test preds)) (rows df)) t)
                 = Inr m \<and>
               (0, preds ! i) \<in> set (group_rows (join_town (zip test_index (zip y_test preds)) (rows df)) t) \<and>
               \<not> is_finite (np_divide (0 - preds ! i) 0) \<and>
               (preds ! i \<noteq> 0 \<longrightarrow> MAPE m = PInf)"
    using an m gm mem nf inf unfolding joined_def results_def by blast
qed

theorem town_mape_unguarded_witness:
  "analyze_town_performance [0, 2] [1, 1] [0, 1] town_file
     = Inr (Some [(''A'', \<lparr>RMSE = 1, MAE = 1, MAPE = PInf\<rparr>),
                  (''B'', \<lparr>RMSE = 1, MAE = 1, MAPE = Finite 50\<rparr>)]) \<and>
   (\<exists>m. group_metrics [(0, 0), (4, 5)] = Inr m \<and> MAPE m = Finite 25) \<and>
   \<not> list_all is_finite (town_ratios [(0, 0), (4, 5)]) \<and>
   is_finite (mape_of [0, 2] [1, 1])"
proof -
  have a: "analyze_town_performance [0, 2] [1, 1] [0, 1] town_file
     = Inr (Some [(''A'', \<lparr>RMSE = 1, MAE = 1, MAPE = PInf\<rparr>),
                  (''B'', \<lparr>RMSE = 1, MAE = 1, MAPE = Finite 50\<rparr>)])"
    by (simp add: analyze_town_performance_def town_file_def join_town_def group_keys_def
        group_rows_def group_metrics_def rmse_of_def mean_squared_error_def
        mean_absolute_error_def check_targets_def residuals_def mean_exact town_ratios_def
        series_mean_def np_mean_def np_divide_def)
      (simp add: exact_def)
  have b: "group_metrics [(0, 0), (4, 5)]
             = Inr \<lparr>RMSE = sqrt (1 / 2), MAE = 1 / 2, MAPE = Finite 25\<rparr>"
    by (simp add: group_metrics_def rmse_of_def mean_squared_error_def
        mean_absolute_error_def check_targets_def residuals_def mean_exact town_ratios_def
        series_mean_def np_mean_def np_divide_def)
      (simp add: exact_def)
  show ?thesis
    using town_mape_unguarded [of "[(0, 0), (4, 5)]" "[0, 2]" "[1, 1]" town_file "[0, 1]" 0
      "\<lparr>date = 0, irradiance = Some 0, temperature = Some 20, humidity = Some 50,
         wind_speed = Some 3, town = Some ''A''\<rparr>" "''A''"] a b
    by (simp add: town_file_def)
qed

section \<open>Properties of the run\<close>

lemma sort_key_sorted_id: "sorted (map f xs) \<Longrightarrow> sort_key f xs = xs"
  by (induction xs) (auto simp: insort_is_Cons)

lemma irradiance_col_map_columns: "irradiance_col (map_columns g fr) = g (irradiance_col fr)"
  by (simp add: map_columns_def)

lemma irradiance_col_fill_length:
  "length (irradiance_col (fill_missing fr)) = length (irradiance_col fr)"
  by (simp add: fill_missing_def irradiance_col_map_columns)

lemma tail_length: "length (tail n xs) = min n (length xs)"
  by (auto simp: tail_def)

lemma frame_len_prepared: "frame_len (prepared f) = min 10000 (length (rows f))"
  by (simp add: frame_len_def prepared_def irradiance_col_map_columns tail_length
      irradiance_col_fill_length select_columns_def sort_index_def)

lemma make_lags_lengths:
  "make_lags col = Inr (X, y) \<Longrightarrow> length X = length col - n_lags \<and> length y = length col - n_lags"
  by (auto simp: make_lags_eq)

lemma split_lengths:
  "length (split_train S) = train_size (length S)"
  "length (split_test S) = length S - train_size (length S)"
  using train_size_le [of "length S"]
  by (simp_all add: split_train_def split_test_def slice_def slice_from_def)

lemma split_test_empty: "split_test S = [] \<Longrightarrow> split_train S = []"
proof -
  assume e: "split_test S = []"
  define n where "n = length S"
  have "length (split_test S) = n - 4 * n div 5"
    by (simp add: split_lengths train_size_div n_def)
  then have a: "n \<le> 4 * n div 5" using e by simp
  have "5 * (4 * n div 5) \<le> 4 * n" by simp
  then have "n = 0" using a by linarith
  then show ?thesis by (simp add: split_train_def slice_def n_def)
qed

lemma scale_stage_empty: "scale_stage [] X_test y_train y_test = Inl (Scaler_X, ValueError)"
  by (simp add: scale_stage_def fit_transform_def fit_def)

lemma run_empty_train:
  assumes lags: "make_lags (irradiance_col (prepared f)) = Inr (X, y)"
    and empty: "split_train X = []"
  shows "run svr_fit (Some f) =
           ([Loaded]
              @ (if null_count (select_columns (sort_index (rows f))) > 0 then [MissingWarning] else [])
              @ [OriginalSize (length (rows f)), ReducedSize (frame_len (prepared f)),
                 ShapeX (length X), ShapeY (length y), TrainPoints 0, TestPoints (length (split_test X))],
            Raised Scaler_X ValueError)"
  by (simp add: run_def read_csv_def Let_def lags empty scale_stage_empty)

text \<open>
  C2 (as amended). The script has no check for an empty partition. When the training set
  is empty (an empty test set implies an empty training set), the run prints its
  progress lines up to the partition sizes and then ends with the ValueError that the
  feature scaler's \<open>fit_transform\<close> raises on an array without samples, before the
  estimator is reached.
\<close>

theorem empty_partition_not_detected:
  assumes "make_lags (irradiance_col (prepared f)) = Inr (X, y)"
    and "split_train X = [] \<or> split_test X = []"
  shows "run svr_fit (Some f) =
           ([Loaded]
              @ (if null_count (select_columns (sort_index (rows f))) > 0 then [MissingWarning] else [])
              @ [OriginalSize (length (rows f)), ReducedSize (frame_len (prepared f)),
                 ShapeX (length X), ShapeY (length y), TrainPoints 0, TestPoints (length (split_test X))],
            Raised Scaler_X ValueError)"
proof -
  have "split_train X = []" using assms(2) split_test_empty by blast
  then show ?thesis using assms(1) by (rule run_empty_train [rotated])
qed

lemma sorted_int_upt: "sorted (map int [0 ..< n])"
  by (simp add: sorted_map sorted_wrt_iff_nth_less)

lemma measured_dates: "map date (map (\<lambda>i. measured (int i)) ns) = map int ns"
  by (simp add: measured_def comp_def)

lemma null_count_measured: "null_count (select_columns (map measured ds)) = 0"
  by (simp add: null_count_def select_columns_def columns_def measured_def comp_def)

lemma short_sorted: "sort_index (rows short_file) = rows short_file"
proof -
  have "sorted (map date (rows short_file))"
    using sorted_int_upt [of 25] by (simp add: short_file_def measured_def comp_def)
  then show ?thesis unfolding sort_index_def by (rule sort_key_sorted_id)
qed

lemma short_nulls: "null_count (select_columns (rows short_file)) = 0"
  using null_count_measured [of "map int [0 ..< 25]"] by (simp add: short_file_def comp_def)

text \<open>
  A series of 25 rows gives one sample, an empty training set and a test set of one: the
  run ends with the scaler's ValueError, and no printed line names insufficient data.
\<close>

theorem short_series_crashes_in_scaler:
  "run zero_svr (Some short_file) =
     ([Loaded, OriginalSize 25, ReducedSize 25, ShapeX 1, ShapeY 1, TrainPoints 0, TestPoints 1],
      Raised Scaler_X ValueError)"
proof -
  have len: "length (irradiance_col (prepared short_file)) = 25"
    using frame_len_prepared [of short_file] by (simp add: frame_len_def short_file_def)
  obtain X y where lags: "make_lags (irradiance_col (prepared short_file)) = Inr (X, y)"
    by (simp add: make_lags_eq)
  have l: "length X = 1" "length y = 1" using make_lags_lengths [OF lags] len by (simp_all add: n_lags_def)
  have tr: "split_train X = []" using split_lengths(1) [of X] l by (simp add: train_size_div)
  have te: "length (split_test X) = 1" using split_lengths(2) [of X] l by (simp add: train_size_div)
  show ?thesis
    using run_empty_train [OF lags tr, of zero_svr] l te len
    by (simp add: short_sorted short_nulls frame_len_def) (simp add: short_file_def)
qed

theorem empty_partition_not_detected_witness:
  "run zero_svr (Some tiny_file) =
     ([Loaded, OriginalSize 3, ReducedSize 3, ShapeX 0, ShapeY 0, TrainPoints 0, TestPoints 0],
      Raised Scaler_X ValueError)"
proof -
  have s: "sort_index (rows tiny_file) = rows tiny_file"
    by (simp add: sort_index_def tiny_file_def measured_def)
  have n: "null_count (select_columns (rows tiny_file)) = 0"
    using null_count_measured [of "[0, 1, 2]"] by (simp add: tiny_file_def)
  have len: "length (irradiance_col (prepared tiny_file)) = 3"
    using frame_len_prepared [of tiny_file] by (simp add: frame_len_def tiny_file_def)
  have lags: "make_lags (irradiance_col (prepared tiny_file)) = Inr ([], [])"
    by (simp add: make_lags_eq len n_lags_def)
  have e: "split_train ([] :: real option list list) = [] \<or> split_test ([] :: real option list list) = []"
    by (simp add: split_train_def slice_def)
  show ?thesis
    using empty_partition_not_detected [OF lags e, of zero_svr] len
    by (simp add: s n frame_len_def split_test_def slice_from_def) (simp add: tiny_file_def)
qed

text \<open>
  C8 (as amended). When the input file is missing the script prints the diagnostic and
  nothing else, and ends at once through \<open>exit()\<close>, called without a status: the exit
  status of the process is zero.
\<close>

theorem missing_file_exit:
  "run svr_fit None = ([NotFound], Exited None) \<and> exit_status (snd (run svr_fit None)) = 0"
  by (simp add: run_def read_csv_def)

text \<open>The exit after the diagnostic is not a non-zero one.\<close>

theorem missing_file_exit_status_zero:
  "fst (run zero_svr None) = [NotFound] \<and> exit_status (snd (run zero_svr None)) = 0"
  by (simp add: run_def read_csv_def)

section \<open>Properties of the two test index computations\<close>

lemma shifted_const:
  fixes idx :: "'t::linorder list"
  assumes srt: "sorted idx" and k: "0 < k" and off: "0 < off" and len: "s + off + k = length idx"
    and eq: "\<forall>j < k. idx ! (s + off + j) = idx ! (s + j)"
  shows "j < off + k \<Longrightarrow> idx ! (s + j) = idx ! s"
proof (induction j rule: less_induct)
  case (less j)
  show ?case
  proof (cases "j < off")
    case True
    have a: "idx ! s \<le> idx ! (s + j)"
      using srt less.prems len by (intro sorted_nth_mono) auto
    have b: "idx ! (s + j) \<le> idx ! (s + off)"
      using srt True k len by (intro sorted_nth_mono) auto
    have "idx ! (s + off) = idx ! s" using eq k by (metis add.right_neutral)
    then show ?thesis using a b by simp
  next
    case False
    define i where "i = j - off"
    have i: "i < k" "j = off + i" "i < j" using False less.prems off by (auto simp: i_def)
    have "idx ! (s + j) = idx ! (s + i)" using eq i by (simp add: add.assoc)
    also have "\<dots> = idx ! s" using less.IH [of i] i by simp
    finally show ?thesis .
  qed
qed

lemma shifted_slices_eq:
  fixes idx :: "'t::linorder list"
  assumes srt: "sorted idx" and k: "0 < k" and off: "0 < off" and len: "s + off + k = length idx"
  shows "take k (drop (s + off) idx) = take k (drop s idx)
         \<longleftrightarrow> (\<forall>i j. s \<le> i \<and> i < length idx \<and> s \<le> j \<and> j < length idx \<longrightarrow> idx ! i = idx ! j)"
proof
  assume e: "take k (drop (s + off) idx) = take k (drop s idx)"
  have eq: "\<forall>j < k. idx ! (s + off + j) = idx ! (s + j)"
  proof (intro allI impI)
    fix j assume j: "j < k"
    have "take k (drop (s + off) idx) ! j = take k (drop s idx) ! j" using e by simp
    then show "idx ! (s + off + j) = idx ! (s + j)" using j len by simp
  qed
  have c: "idx ! (s + j) = idx ! s" if "j < off + k" for j
    using shifted_const [OF srt k off len eq that] .
  show "\<forall>i j. s \<le> i \<and> i < length idx \<and> s \<le> j \<and> j < length idx \<longrightarrow> idx ! i = idx ! j"
  proof (intro allI impI)
    fix i j assume h: "s \<le> i \<and> i < length idx \<and> s \<le> j \<and> j < length idx"
    have "idx ! (s + (i - s)) = idx ! s" using h len by (intro c) auto
    moreover have "idx ! (s + (j - s)) = idx ! s" using h len by (intro c) auto
    ultimately show "idx ! i = idx ! j" using h by simp
  qed
next
  assume a: "\<forall>i j. s \<le> i \<and> i < length idx \<and> s \<le> j \<and> j < length idx \<longrightarrow> idx ! i = idx ! j"
  show "take k (drop (s + off) idx) = take k (drop s idx)"
  proof (rule nth_equalityI)
    show "length (take k (drop (s + off) idx)) = length (take k (drop s idx))"
      using len by auto
  next
    fix i assume "i < length (take k (drop (s + off) idx))"
    then have i: "i < k" by simp
    have "idx ! (s + off + i) = idx ! (s + i)" using a i len by auto
    then show "take k (drop (s + off) idx) ! i = take k (drop s idx) ! i"
      using i len by simp
  qed
qed

lemma test_index_slices:
  fixes idx :: "'t::linorder list"
  assumes srt: "sorted idx" and same: "length col = length idx"
    and lags: "make_lags (tail 10000 col) = Inr (X, y)"
    and test: "split_test y \<noteq> []"
  shows "(test_index_first idx (length (tail 10000 col)) (train_size (length X)) (split_test y)
            = test_index_second idx (split_train X) (split_test y))
         \<longleftrightarrow> (length idx - length (tail 10000 col) = 0 \<or>
              (\<forall>i j. N_LAGS + length (split_train X) \<le> i \<and> i < length idx \<and>
                     N_LAGS + length (split_train X) \<le> j \<and> j < length idx \<longrightarrow> idx ! i = idx ! j))"
proof -
  define D where "D = length (tail 10000 col)"
  define off where "off = length idx - D"
  define ts where "ts = train_size (length X)"
  define k where "k = length (split_test y)"
  have D: "D = min 10000 (length idx)" by (simp add: D_def tail_length same)
  have M: "length X = D - 24" "length y = D - 24"
    using make_lags_lengths [OF lags] by (simp_all add: D_def n_lags_def)
  have kk: "k = (D - 24) - ts" by (simp add: k_def split_lengths M ts_def)
  have k0: "0 < k" using test by (simp add: k_def)
  have tsle: "ts \<le> D - 24" using train_size_le [of "length X"] by (simp add: ts_def M)
  have len: "24 + ts + off + k = length idx" using kk k0 tsle D by (simp add: off_def)
  have tr: "length (split_train X) = ts" by (simp add: split_lengths ts_def)
  have first: "test_index_first idx D ts (split_test y) = take k (drop (24 + ts + off) idx)"
    by (simp add: test_index_first_def slice_def Let_def n_lags_def off_def k_def add.commute add.left_commute)
  have second: "test_index_second idx (split_train X) (split_test y) = take k (drop (24 + ts) idx)"
    by (simp add: test_index_second_def slice_def N_LAGS_def tr k_def)
  show ?thesis
  proof (cases "off = 0")
    case True
    then show ?thesis using first second unfolding D_def [symmetric] ts_def [symmetric] off_def by simp
  next
    case False
    then have off0: "0 < off" by simp
    show ?thesis
      using shifted_slices_eq [OF srt k0 off0 len] first second False
      unfolding D_def [symmetric] ts_def [symmetric] off_def tr N_LAGS_def by simp
  qed
qed


lemma sorted_df_index: "sorted (df_index (sort_index df))"
  by (simp add: df_index_def sort_index_def)

lemma df_index_length: "length (df_index (sort_index df)) = length df"
  by (simp add: df_index_def sort_index_def)

lemma prepared_irradiance:
  "irradiance_col (prepared f) =
     tail 10000 (irradiance_col (fill_missing (select_columns (sort_index (rows f)))))"
  by (simp add: prepared_def irradiance_col_map_columns)

lemma filled_length:
  "length (irradiance_col (fill_missing (select_columns (sort_index (rows f))))) = length (rows f)"
  by (simp add: irradiance_col_fill_length select_columns_def sort_index_def)

text \<open>
  C1 (as amended). For every run with a non-empty test set, the two computations of the
  test index (the slice of \<open>df.index\<close> from \<open>n_lags + (len(df) - len(data)) + train_size\<close>
  and the slice from \<open>N_LAGS + len(X_train)\<close>, each of length \<open>len(y_test)\<close>) are equal
  exactly when the truncation offset \<open>len(df) - len(data)\<close> is zero or all timestamps of
  the sorted index from position \<open>N_LAGS + len(X_train)\<close> to its end are the same. So they
  agree when the offset is zero, and on an index that does not repeat one timestamp over
  that whole range their agreement requires the offset to be zero.
\<close>

theorem test_index_agreement:
  assumes lags: "make_lags (irradiance_col (prepared f)) = Inr (X, y)"
    and test: "split_test y \<noteq> []"
  shows "(test_index_first (df_index (sort_index (rows f))) (frame_len (prepared f))
             (train_size (length X)) (split_test y)
            = test_index_second (df_index (sort_index (rows f))) (split_train X) (split_test y))
         \<longleftrightarrow> (length (rows f) - frame_len (prepared f) = 0 \<or>
              (\<forall>i j. N_LAGS + length (split_train X) \<le> i \<and> i < length (rows f) \<and>
                     N_LAGS + length (split_train X) \<le> j \<and> j < length (rows f)
                 \<longrightarrow> df_index (sort_index (rows f)) ! i = df_index (sort_index (rows f)) ! j))"
proof -
  let ?col = "irradiance_col (fill_missing (select_columns (sort_index (rows f))))"
  let ?idx = "df_index (sort_index (rows f))"
  have same: "length ?col = length ?idx" by (simp add: filled_length df_index_length)
  have lags': "make_lags (tail 10000 ?col) = Inr (X, y)" using lags by (simp add: prepared_irradiance)
  have fl: "frame_len (prepared f) = length (tail 10000 ?col)"
    by (simp add: frame_len_def prepared_irradiance)
  show ?thesis
    using test_index_slices [OF sorted_df_index same lags' test]
    by (simp add: fl df_index_length)
qed

lemma sorted_replicate_dates: "sort_index (replicate n r) = replicate n r"
  unfolding sort_index_def by (rule sort_key_sorted_id) (simp add: sorted_replicate)

lemma constant_index: "df_index (sort_index (rows constant_file)) = replicate 10001 0"
  by (simp add: constant_file_def sorted_replicate_dates df_index_def measured_def)

lemma distinct_index: "df_index (sort_index (rows distinct_file)) = map int [0 ..< 10001]"
proof -
  have "sorted (map date (rows distinct_file))"
    using sorted_int_upt [of 10001] by (simp add: distinct_file_def measured_def comp_def)
  then have "sort_index (rows distinct_file) = rows distinct_file"
    unfolding sort_index_def by (rule sort_key_sorted_id)
  then show ?thesis by (simp add: df_index_def distinct_file_def measured_def comp_def)
qed

lemma long_run_lengths:
  assumes "length (rows f) = 10001" and "make_lags (irradiance_col (prepared f)) = Inr (X, y)"
  shows "frame_len (prepared f) = 10000" "length X = 9976" "train_size (length X) = 7980"
    "length (split_train X) = 7980" "length (split_test y) = 1996"
proof -
  show a: "frame_len (prepared f) = 10000" using assms(1) by (simp add: frame_len_prepared)
  then have l: "length X = 9976" "length y = 9976"
    using make_lags_lengths [OF assms(2)] by (simp_all add: frame_len_def n_lags_def)
  then show "length X = 9976" by simp
  show t: "train_size (length X) = 7980" using l by (simp add: train_size_div)
  show "length (split_train X) = 7980" using t by (simp add: split_lengths)
  show "length (split_test y) = 1996" using l by (simp add: split_lengths train_size_div)
qed

text \<open>
  With 10001 rows that all carry the same date the offset is 1 and the test set has 1996
  samples, yet both computations return the same 1996 timestamps.
\<close>

theorem constant_index_agrees_at_offset_one:
  "\<exists>X y. make_lags (irradiance_col (prepared constant_file)) = Inr (X, y) \<and>
         split_test y \<noteq> [] \<and>
         length (rows constant_file) - frame_len (prepared constant_file) = 1 \<and>
         test_index_first (df_index (sort_index (rows constant_file)))
             (frame_len (prepared constant_file)) (train_size (length X)) (split_test y)
           = test_index_second (df_index (sort_index (rows constant_file)))
               (split_train X) (split_test y)"
proof -
  have n: "length (rows constant_file) = 10001" by (simp add: constant_file_def)
  obtain X y where lags: "make_lags (irradiance_col (prepared constant_file)) = Inr (X, y)"
    by (simp add: make_lags_eq)
  note L = long_run_lengths [OF n lags]
  have "split_test y \<noteq> []" using L(5) by auto
  moreover have "length (rows constant_file) - frame_len (prepared constant_file) = 1"
    using n L(1) by simp
  moreover have "test_index_first (df_index (sort_index (rows constant_file)))
             (frame_len (prepared constant_file)) (train_size (length X)) (split_test y)
           = test_index_second (df_index (sort_index (rows constant_file)))
               (split_train X) (split_test y)"
    by (simp add: constant_index test_index_first_def test_index_second_def slice_def L
        n_lags_def N_LAGS_def Let_def train_size_div)
  ultimately show ?thesis using lags by blast
qed

text \<open>With 10001 rows of increasing dates the offset is 1 and the two computations differ.\<close>

theorem test_index_agreement_witness:
  "\<exists>X y. make_lags (irradiance_col (prepared distinct_file)) = Inr (X, y) \<and>
         split_test y \<noteq> [] \<and>
         length (rows distinct_file) - frame_len (prepared distinct_file) = 1 \<and>
         test_index_first (df_index (sort_index (rows distinct_file)))
             (frame_len (prepared distinct_file)) (train_size (length X)) (split_test y)
           \<noteq> test_index_second (df_index (sort_index (rows distinct_file)))
               (split_train X) (split_test y)"
proof -
  have n: "length (rows distinct_file) = 10001" by (simp add: distinct_file_def)
  obtain X y where lags: "make_lags (irradiance_col (prepared distinct_file)) = Inr (X, y)"
    by (simp add: make_lags_eq)
  note L = long_run_lengths [OF n lags]
  have te: "split_test y \<noteq> []" using L(5) by auto
  have off: "length (rows distinct_file) - frame_len (prepared distinct_file) = 1"
    using n L(1) by simp
  have d: "df_index (sort_index (rows distinct_file)) ! 8004 \<noteq> df_index (sort_index (rows distinct_file)) ! 8005"
    by (simp add: distinct_index)
  have "\<not> (\<forall>i j. N_LAGS + length (split_train X) \<le> i \<and> i < length (rows distinct_file) \<and>
                     N_LAGS + length (split_train X) \<le> j \<and> j < length (rows distinct_file)
                 \<longrightarrow> df_index (sort_index (rows distinct_file)) ! i
                       = df_index (sort_index (rows distinct_file)) ! j)"
  proof
    assume a: "\<forall>i j. N_LAGS + length (split_train X) \<le> i \<and> i < length (rows distinct_file) \<and>
                     N_LAGS + length (split_train X) \<le> j \<and> j < length (rows distinct_file)
                 \<longrightarrow> df_index (sort_index (rows distinct_file)) ! i
                       = df_index (sort_index (rows distinct_file)) ! j"
    have "df_index (sort_index (rows distinct_file)) ! 8004
            = df_index (sort_index (rows distinct_file)) ! 8005"
      using a [rule_format, of 8004 8005] n L(4) by (simp add: N_LAGS_def)
    then show False using d by simp
  qed
  then have "test_index_first (df_index (sort_index (rows distinct_file)))
             (frame_len (prepared distinct_file)) (train_size (length X)) (split_test y)
           \<noteq> test_index_second (df_index (sort_index (rows distinct_file)))
               (split_train X) (split_test y)"
    using test_index_agreement [OF lags te] off by simp
  then show ?thesis using lags te off by blast
qed

end
